theory Spec2Isabelle
  imports Complex_Main
begin

section \<open>DIGIPIN: the grid model\<close>

text \<open>
  The library encodes a latitude/longitude pair inside a fixed bounding box into a code of
  ten symbols and decodes such a code into the centre of its cell. The repository holds two
  copies of the two functions: \<^verbatim>\<open>index.ts\<close> (plain JavaScript, the decoder returns
  \<^verbatim>\<open>toFixed(6)\<close> strings) and a typed copy (the decoder returns numbers rounded with
  \<^verbatim>\<open>Math.round\<close>); the definitions of the typed copy carry the suffix \<open>_ts\<close>.

  JavaScript numbers are modelled as \<^typ>\<open>real\<close> with exact arithmetic: every finite
  double is a real number and no operation rounds. The functions on \<^typ>\<open>real\<close> take
  finite numbers only; the encoders are modelled a second time on all numbers, the
  infinities and \<open>NaN\<close> included (\<open>getDigiPin_num\<close>, \<open>getDigiPin_ts_num\<close>). Strings are \<^typ>\<open>string\<close>, one \<^typ>\<open>char\<close> for one code unit (code units
  above 255 are not represented; the code treats every character outside its table
  alike); \<open>undefined\<close> is \<^term>\<open>None\<close>.
\<close>

definition DIGIPIN_GRID :: "char list list" where
  "DIGIPIN_GRID =
    [[CHR ''F'', CHR ''C'', CHR ''9'', CHR ''8''],
     [CHR ''J'', CHR ''3'', CHR ''2'', CHR ''7''],
     [CHR ''K'', CHR ''4'', CHR ''5'', CHR ''6''],
     [CHR ''L'', CHR ''M'', CHR ''P'', CHR ''T'']]"

text \<open>
  \<^verbatim>\<open>for (r...) for (c...) CHAR_TO_POSITION.set(DIGIPIN_GRID[r][c], { row: r, col: c })\<close>:
  the map is filled by the two nested loops, a later \<^verbatim>\<open>set\<close> of the same key
  overwriting an earlier one. A position is the pair \<open>(row, col)\<close>.
\<close>

definition CHAR_TO_POSITION :: "char \<rightharpoonup> nat \<times> nat" where
  "CHAR_TO_POSITION =
     fold (\<lambda>r m. fold (\<lambda>c m. m(DIGIPIN_GRID ! r ! c \<mapsto> (r, c))) [0..<4] m) [0..<4] Map.empty"

definition BOUNDS_minLat :: real where "BOUNDS_minLat = 2.5"
definition BOUNDS_maxLat :: real where "BOUNDS_maxLat = 38.5"
definition BOUNDS_minLon :: real where "BOUNDS_minLon = 63.5"
definition BOUNDS_maxLon :: real where "BOUNDS_maxLon = 99.5"

definition DIGIPIN_LENGTH :: nat where "DIGIPIN_LENGTH = 10"
definition GRID_SIZE :: real where "GRID_SIZE = 4"
definition HYPHEN_POSITIONS :: "nat set" where "HYPHEN_POSITIONS = {3, 6}"

text \<open>
  Indexing an array or a string with a number: \<^verbatim>\<open>a[i]\<close> is the element when \<open>i\<close> is
  an index of \<open>a\<close> and \<open>undefined\<close> otherwise.
\<close>

definition js_index :: "'a list \<Rightarrow> int \<Rightarrow> 'a option" where
  "js_index xs i = (if 0 \<le> i \<and> i < int (length xs) then Some (xs ! nat i) else None)"

section \<open>Errors and results\<close>

text \<open>
  The code throws \<^verbatim>\<open>Error\<close> objects whose messages are template strings. An error is
  modelled by the parts its template is filled with:
  \<^item> \<open>OutOfRange axis v lo hi\<close> is \<^verbatim>\<open>`${axis} ${v} out of range [${lo}, ${hi}]`\<close>;
  \<^item> \<open>InvalidLength n m\<close> is \<^verbatim>\<open>`Invalid DIGIPIN length: ${n}, expected ${m}`\<close>;
  \<^item> \<open>InvalidCharacter ch i\<close> is \<^verbatim>\<open>`Invalid character '${ch}' at position ${i} in DIGIPIN`\<close>;
  \<^item> \<open>TypeError\<close> is what reading an index of \<open>undefined\<close> throws.
\<close>

datatype axis = Latitude | Longitude

datatype error =
    OutOfRange axis real real real
  | InvalidLength nat nat
  | InvalidCharacter "char option" nat
  | TypeError

datatype jsval = JNumber real | JString string

record coords =
  latitude :: jsval
  longitude :: jsval

section \<open>Library functions of the language\<close>

text \<open>\<^verbatim>\<open>Math.round(x)\<close>: the nearest integer, a tie going to the larger one.\<close>

definition Math_round :: "real \<Rightarrow> int" where
  "Math_round x = \<lfloor>x + 1 / 2\<rfloor>"

definition digit_char :: "nat \<Rightarrow> char" where
  "digit_char d = ''0123456789'' ! d"

function nat_to_string :: "nat \<Rightarrow> string" where
  "nat_to_string n =
     (if n < 10 then [digit_char n] else nat_to_string (n div 10) @ [digit_char (n mod 10)])"
  by pat_completeness auto
termination
  by (relation "measure (\<lambda>n. n)") auto

text \<open>
  \<^verbatim>\<open>x.toFixed(f)\<close> as ECMAScript defines it for \<open>\<bar>x\<bar> < 10 ^ 21\<close>: the sign, then the
  integer \<open>n\<close> nearest to \<open>\<bar>x\<bar> * 10 ^ f\<close> (the larger one at a tie) written in decimal,
  padded with zeros on the left to \<open>f + 1\<close> digits, with a point before the last \<open>f\<close>
  digits. (For larger \<open>x\<close> the language switches to exponent notation; the decoder's
  centres are far below that.)
\<close>

definition toFixed :: "real \<Rightarrow> nat \<Rightarrow> string" where
  "toFixed x f =
     (let s = (if x < 0 then ''-'' else '''');
          n = nat \<lfloor>\<bar>x\<bar> * 10 ^ f + 1 / 2\<rfloor>;
          m = nat_to_string n
      in if f \<noteq> 0 then
           (let m' = (if length m \<le> f then replicate (f + 1 - length m) (CHR ''0'') @ m else m);
                k = length m'
            in s @ take (k - f) m' @ ''.'' @ drop (k - f) m')
         else s @ m)"

text \<open>
  \<^verbatim>\<open>array.join('')\<close>: the elements one after the other, an \<open>undefined\<close> element
  contributing nothing.
\<close>

definition js_join :: "char option list \<Rightarrow> string" where
  "js_join xs = concat (map (\<lambda>x. case x of None \<Rightarrow> [] | Some c \<Rightarrow> [c]) xs)"

section \<open>The encoder\<close>

text \<open>
  \<^verbatim>\<open>getDigiPin\<close> of \<^verbatim>\<open>index.ts\<close>. The loop over \<open>level\<close> carries the working
  rectangle and the \<open>result\<close> array. \<^verbatim>\<open>DIGIPIN_GRID[row][col]\<close> throws when
  \<^verbatim>\<open>DIGIPIN_GRID[row]\<close> is \<open>undefined\<close> and is \<open>undefined\<close> when only \<open>col\<close> is
  no index. Started from the bounding box, the rectangle of level \<open>k\<close> is
  \<open>36 / 4 ^ k\<close> wide, so the divisors \<open>latDiv\<close> and \<open>lonDiv\<close> are never zero and HOL's
  \<open>x / 0 = 0\<close> is never used.
\<close>

function getDigiPin_loop ::
  "real \<Rightarrow> real \<Rightarrow> nat \<Rightarrow> real \<Rightarrow> real \<Rightarrow> real \<Rightarrow> real \<Rightarrow> char option list
     \<Rightarrow> error + char option list" where
  "getDigiPin_loop lat lon level minLat maxLat minLon maxLon result =
     (if level < DIGIPIN_LENGTH then
        (let latDiv = (maxLat - minLat) / GRID_SIZE;
             lonDiv = (maxLon - minLon) / GRID_SIZE;
             row = min 3 (max 0 (3 - \<lfloor>(lat - minLat) / latDiv\<rfloor>));
             col = min 3 (max 0 \<lfloor>(lon - minLon) / lonDiv\<rfloor>)
         in case js_index DIGIPIN_GRID row of
              None \<Rightarrow> Inl TypeError
            | Some cells \<Rightarrow>
               (let result1 = result @ [js_index cells col];
                    result2 = (if level + 1 \<in> HYPHEN_POSITIONS
                               then result1 @ [Some (CHR ''-'')] else result1);
                    newMinLat = minLat + latDiv * of_int (3 - row);
                    newMinLon = minLon + lonDiv * of_int col
                in getDigiPin_loop lat lon (level + 1)
                     newMinLat (newMinLat + latDiv) newMinLon (newMinLon + lonDiv) result2))
      else Inr result)"
  by pat_completeness auto
termination
  by (relation "measure (\<lambda>(lat, lon, level, rest). DIGIPIN_LENGTH - level)") auto

definition getDigiPin :: "real \<Rightarrow> real \<Rightarrow> error + string" where
  "getDigiPin lat lon =
     (if lat < BOUNDS_minLat \<or> lat > BOUNDS_maxLat
      then Inl (OutOfRange Latitude lat BOUNDS_minLat BOUNDS_maxLat)
      else if lon < BOUNDS_minLon \<or> lon > BOUNDS_maxLon
      then Inl (OutOfRange Longitude lon BOUNDS_minLon BOUNDS_maxLon)
      else case getDigiPin_loop lat lon 0
                  BOUNDS_minLat BOUNDS_maxLat BOUNDS_minLon BOUNDS_maxLon [] of
             Inl e \<Rightarrow> Inl e
           | Inr result \<Rightarrow> Inr (js_join result))"

text \<open>
  \<^verbatim>\<open>getDigiPin\<close> of the typed copy: the step is \<open>range * 0.25\<close>, the row is clamped
  from above before the inversion and from below after it, and the result is a string
  built by \<^verbatim>\<open>+=\<close>, to which an \<open>undefined\<close> table entry would append the text
  \<^verbatim>\<open>undefined\<close>.
\<close>

definition reserveCapacity :: "nat \<Rightarrow> string" where
  "reserveCapacity sz = []"

function getDigiPin_ts_loop ::
  "real \<Rightarrow> real \<Rightarrow> nat \<Rightarrow> real \<Rightarrow> real \<Rightarrow> real \<Rightarrow> real \<Rightarrow> string \<Rightarrow> error + string" where
  "getDigiPin_ts_loop lat lon level minLat maxLat minLon maxLon result =
     (if level < DIGIPIN_LENGTH then
        (let latRange = maxLat - minLat;
             lonRange = maxLon - minLon;
             latDiv = latRange * 0.25;
             lonDiv = lonRange * 0.25;
             latOffset = lat - minLat;
             lonOffset = lon - minLon;
             row0 = \<lfloor>latOffset / latDiv\<rfloor>;
             row1 = (if row0 > 3 then 3 else row0);
             row2 = 3 - row1;
             row = (if row2 < 0 then 0 else row2);
             col0 = \<lfloor>lonOffset / lonDiv\<rfloor>;
             col1 = (if col0 > 3 then 3 else col0);
             col = (if col1 < 0 then 0 else col1)
         in case js_index DIGIPIN_GRID row of
              None \<Rightarrow> Inl TypeError
            | Some cells \<Rightarrow>
               (let result1 = result @ (case js_index cells col of
                                          None \<Rightarrow> ''undefined'' | Some c \<Rightarrow> [c]);
                    result2 = (if level = 2 \<or> level = 5 then result1 @ ''-'' else result1);
                    newMinLat = minLat + latDiv * of_int (3 - row);
                    newMinLon = minLon + lonDiv * of_int col
                in getDigiPin_ts_loop lat lon (level + 1)
                     newMinLat (newMinLat + latDiv) newMinLon (newMinLon + lonDiv) result2))
      else Inr result)"
  by pat_completeness auto
termination
  by (relation "measure (\<lambda>(lat, lon, level, rest). DIGIPIN_LENGTH - level)") auto

definition getDigiPin_ts :: "real \<Rightarrow> real \<Rightarrow> error + string" where
  "getDigiPin_ts lat lon =
     (if lat < BOUNDS_minLat \<or> lat > BOUNDS_maxLat
      then Inl (OutOfRange Latitude lat BOUNDS_minLat BOUNDS_maxLat)
      else if lon < BOUNDS_minLon \<or> lon > BOUNDS_maxLon
      then Inl (OutOfRange Longitude lon BOUNDS_minLon BOUNDS_maxLon)
      else getDigiPin_ts_loop lat lon 0
             BOUNDS_minLat BOUNDS_maxLat BOUNDS_minLon BOUNDS_maxLon ([] @ reserveCapacity 13))"

section \<open>The table indices of a run\<close>

text \<open>
  The pairs \<open>(row, col)\<close> with which the two encoding loops index \<^verbatim>\<open>DIGIPIN_GRID\<close>,
  level by level: the same computation as the loops above, collecting the indices
  instead of the symbols, and ending after an index pair whose row is no index of the
  table (where the loop throws).
\<close>

function getDigiPin_indices ::
  "real \<Rightarrow> real \<Rightarrow> nat \<Rightarrow> real \<Rightarrow> real \<Rightarrow> real \<Rightarrow> real \<Rightarrow> (int \<times> int) list" where
  "getDigiPin_indices lat lon level minLat maxLat minLon maxLon =
     (if level < DIGIPIN_LENGTH then
        (let latDiv = (maxLat - minLat) / GRID_SIZE;
             lonDiv = (maxLon - minLon) / GRID_SIZE;
             row = min 3 (max 0 (3 - \<lfloor>(lat - minLat) / latDiv\<rfloor>));
             col = min 3 (max 0 \<lfloor>(lon - minLon) / lonDiv\<rfloor>)
         in (row, col) #
            (case js_index DIGIPIN_GRID row of
               None \<Rightarrow> []
             | Some cells \<Rightarrow>
                (let newMinLat = minLat + latDiv * of_int (3 - row);
                     newMinLon = minLon + lonDiv * of_int col
                 in getDigiPin_indices lat lon (level + 1)
                      newMinLat (newMinLat + latDiv) newMinLon (newMinLon + lonDiv))))
      else [])"
  by pat_completeness auto
termination
  by (relation "measure (\<lambda>(lat, lon, level, rest). DIGIPIN_LENGTH - level)") auto

function getDigiPin_ts_indices ::
  "real \<Rightarrow> real \<Rightarrow> nat \<Rightarrow> real \<Rightarrow> real \<Rightarrow> real \<Rightarrow> real \<Rightarrow> (int \<times> int) list" where
  "getDigiPin_ts_indices lat lon level minLat maxLat minLon maxLon =
     (if level < DIGIPIN_LENGTH then
        (let latRange = maxLat - minLat;
             lonRange = maxLon - minLon;
             latDiv = latRange * 0.25;
             lonDiv = lonRange * 0.25;
             latOffset = lat - minLat;
             lonOffset = lon - minLon;
             row0 = \<lfloor>latOffset / latDiv\<rfloor>;
             row1 = (if row0 > 3 then 3 else row0);
             row2 = 3 - row1;
             row = (if row2 < 0 then 0 else row2);
             col0 = \<lfloor>lonOffset / lonDiv\<rfloor>;
             col1 = (if col0 > 3 then 3 else col0);
             col = (if col1 < 0 then 0 else col1)
         in (row, col) #
            (case js_index DIGIPIN_GRID row of
               None \<Rightarrow> []
             | Some cells \<Rightarrow>
                (let newMinLat = minLat + latDiv * of_int (3 - row);
                     newMinLon = minLon + lonDiv * of_int col
                 in getDigiPin_ts_indices lat lon (level + 1)
                      newMinLat (newMinLat + latDiv) newMinLon (newMinLon + lonDiv))))
      else [])"
  by pat_completeness auto
termination
  by (relation "measure (\<lambda>(lat, lon, level, rest). DIGIPIN_LENGTH - level)") auto

text \<open>Both indices of a pair lie in \<open>0..3\<close>.\<close>

definition index_ok :: "int \<times> int \<Rightarrow> bool" where
  "index_ok rc = (0 \<le> fst rc \<and> fst rc \<le> 3 \<and> 0 \<le> snd rc \<and> snd rc \<le> 3)"

section \<open>The encoder on every number\<close>

text \<open>
  The two encoders once more, on every value of the type \<^verbatim>\<open>number\<close>: a finite
  number, one of the two infinities, or \<open>NaN\<close>. The range errors carry the offending
  value, which may be any number.
\<close>

datatype jsnum = Num real | PosInf | NegInf | NaN

datatype num_error = OutOfRangeNum axis jsnum real real | TypeErrorNum

text \<open>
  The operators of the language. On finite numbers they are the exact operations used
  above; an operand \<open>NaN\<close> makes every comparison false and every arithmetic result
  \<open>NaN\<close>; the infinities follow the arithmetic of the language. \<open>Num 0\<close> stands for
  both zeros, which matters only for the sign of a quotient by zero.
\<close>

fun js_less :: "jsnum \<Rightarrow> jsnum \<Rightarrow> bool" where
  "js_less NaN b = False"
| "js_less a NaN = False"
| "js_less (Num x) (Num y) = (x < y)"
| "js_less PosInf b = False"
| "js_less a NegInf = False"
| "js_less a b = True"

fun js_negative :: "jsnum \<Rightarrow> bool" where
  "js_negative (Num x) = (x < 0)"
| "js_negative NegInf = True"
| "js_negative PosInf = False"
| "js_negative NaN = False"

fun js_uminus :: "jsnum \<Rightarrow> jsnum" where
  "js_uminus (Num x) = Num (- x)"
| "js_uminus PosInf = NegInf"
| "js_uminus NegInf = PosInf"
| "js_uminus NaN = NaN"

fun js_plus :: "jsnum \<Rightarrow> jsnum \<Rightarrow> jsnum" where
  "js_plus NaN b = NaN"
| "js_plus a NaN = NaN"
| "js_plus (Num x) (Num y) = Num (x + y)"
| "js_plus PosInf NegInf = NaN"
| "js_plus NegInf PosInf = NaN"
| "js_plus PosInf b = PosInf"
| "js_plus a PosInf = PosInf"
| "js_plus NegInf b = NegInf"
| "js_plus a NegInf = NegInf"

definition js_minus :: "jsnum \<Rightarrow> jsnum \<Rightarrow> jsnum" where
  "js_minus a b = js_plus a (js_uminus b)"

fun js_times :: "jsnum \<Rightarrow> jsnum \<Rightarrow> jsnum" where
  "js_times NaN b = NaN"
| "js_times a NaN = NaN"
| "js_times (Num x) (Num y) = Num (x * y)"
| "js_times a b =
     (if a = Num 0 \<or> b = Num 0 then NaN
      else if js_negative a = js_negative b then PosInf else NegInf)"

fun js_divide :: "jsnum \<Rightarrow> jsnum \<Rightarrow> jsnum" where
  "js_divide NaN b = NaN"
| "js_divide a NaN = NaN"
| "js_divide (Num x) (Num y) =
     (if y \<noteq> 0 then Num (x / y)
      else if x = 0 then NaN else if 0 < x then PosInf else NegInf)"
| "js_divide (Num x) b = Num 0"
| "js_divide a (Num y) = (if js_negative a = (y < 0) then PosInf else NegInf)"
| "js_divide a b = NaN"

text \<open>
  \<^verbatim>\<open>Math.floor\<close>, \<^verbatim>\<open>Math.max\<close> and \<^verbatim>\<open>Math.min\<close>: the floor leaves the infinities
  and \<open>NaN\<close> as they are, and the maximum and the minimum are \<open>NaN\<close> as soon as one
  argument is.
\<close>

fun Math_floor :: "jsnum \<Rightarrow> jsnum" where
  "Math_floor (Num x) = Num (of_int \<lfloor>x\<rfloor>)"
| "Math_floor a = a"

definition Math_max :: "jsnum \<Rightarrow> jsnum \<Rightarrow> jsnum" where
  "Math_max a b = (if a = NaN \<or> b = NaN then NaN else if js_less a b then b else a)"

definition Math_min :: "jsnum \<Rightarrow> jsnum \<Rightarrow> jsnum" where
  "Math_min a b = (if a = NaN \<or> b = NaN then NaN else if js_less b a then b else a)"

text \<open>
  \<^verbatim>\<open>a[v]\<close> for a number \<open>v\<close>: the element when \<open>v\<close> is an integer that is an index of
  \<open>a\<close>, and \<open>undefined\<close> otherwise, in particular for \<open>NaN\<close>.
\<close>

definition js_index_num :: "'a list \<Rightarrow> jsnum \<Rightarrow> 'a option" where
  "js_index_num xs v =
     (case v of
        Num x \<Rightarrow> (if x = of_int \<lfloor>x\<rfloor> then js_index xs \<lfloor>x\<rfloor> else None)
      | _ \<Rightarrow> None)"

text \<open>
  \<^verbatim>\<open>getDigiPin\<close> of \<^verbatim>\<open>index.ts\<close> and of the typed copy, line by line as above with
  the operators on numbers. On finite coordinates inside the bounding box they return
  what \<open>getDigiPin\<close> and \<open>getDigiPin_ts\<close> return, as proved below.
\<close>

function getDigiPin_num_loop ::
  "jsnum \<Rightarrow> jsnum \<Rightarrow> nat \<Rightarrow> jsnum \<Rightarrow> jsnum \<Rightarrow> jsnum \<Rightarrow> jsnum \<Rightarrow> char option list
     \<Rightarrow> num_error + char option list" where
  "getDigiPin_num_loop lat lon level minLat maxLat minLon maxLon result =
     (if level < DIGIPIN_LENGTH then
        (let latDiv = js_divide (js_minus maxLat minLat) (Num GRID_SIZE);
             lonDiv = js_divide (js_minus maxLon minLon) (Num GRID_SIZE);
             row = Math_min (Num 3) (Math_max (Num 0)
                     (js_minus (Num 3) (Math_floor (js_divide (js_minus lat minLat) latDiv))));
             col = Math_min (Num 3) (Math_max (Num 0)
                     (Math_floor (js_divide (js_minus lon minLon) lonDiv)))
         in case js_index_num DIGIPIN_GRID row of
              None \<Rightarrow> Inl TypeErrorNum
            | Some cells \<Rightarrow>
               (let result1 = result @ [js_index_num cells col];
                    result2 = (if level + 1 \<in> HYPHEN_POSITIONS
                               then result1 @ [Some (CHR ''-'')] else result1);
                    newMinLat = js_plus minLat (js_times latDiv (js_minus (Num 3) row));
                    newMinLon = js_plus minLon (js_times lonDiv col)
                in getDigiPin_num_loop lat lon (level + 1)
                     newMinLat (js_plus newMinLat latDiv)
                     newMinLon (js_plus newMinLon lonDiv) result2))
      else Inr result)"
  by pat_completeness auto
termination
  by (relation "measure (\<lambda>(lat, lon, level, rest). DIGIPIN_LENGTH - level)") auto

definition getDigiPin_num :: "jsnum \<Rightarrow> jsnum \<Rightarrow> num_error + string" where
  "getDigiPin_num lat lon =
     (if js_less lat (Num BOUNDS_minLat) \<or> js_less (Num BOUNDS_maxLat) lat
      then Inl (OutOfRangeNum Latitude lat BOUNDS_minLat BOUNDS_maxLat)
      else if js_less lon (Num BOUNDS_minLon) \<or> js_less (Num BOUNDS_maxLon) lon
      then Inl (OutOfRangeNum Longitude lon BOUNDS_minLon BOUNDS_maxLon)
      else case getDigiPin_num_loop lat lon 0
                  (Num BOUNDS_minLat) (Num BOUNDS_maxLat)
                  (Num BOUNDS_minLon) (Num BOUNDS_maxLon) [] of
             Inl e \<Rightarrow> Inl e
           | Inr result \<Rightarrow> Inr (js_join result))"

function getDigiPin_ts_num_loop ::
  "jsnum \<Rightarrow> jsnum \<Rightarrow> nat \<Rightarrow> jsnum \<Rightarrow> jsnum \<Rightarrow> jsnum \<Rightarrow> jsnum \<Rightarrow> string
     \<Rightarrow> num_error + string" where
  "getDigiPin_ts_num_loop lat lon level minLat maxLat minLon maxLon result =
     (if level < DIGIPIN_LENGTH then
        (let latRange = js_minus maxLat minLat;
             lonRange = js_minus maxLon minLon;
             latDiv = js_times latRange (Num 0.25);
             lonDiv = js_times lonRange (Num 0.25);
             latOffset = js_minus lat minLat;
             lonOffset = js_minus lon minLon;
             row0 = Math_floor (js_divide latOffset latDiv);
             row1 = (if js_less (Num 3) row0 then Num 3 else row0);
             row2 = js_minus (Num 3) row1;
             row = (if js_less row2 (Num 0) then Num 0 else row2);
             col0 = Math_floor (js_divide lonOffset lonDiv);
             col1 = (if js_less (Num 3) col0 then Num 3 else col0);
             col = (if js_less col1 (Num 0) then Num 0 else col1)
         in case js_index_num DIGIPIN_GRID row of
              None \<Rightarrow> Inl TypeErrorNum
            | Some cells \<Rightarrow>
               (let result1 = result @ (case js_index_num cells col of
                                          None \<Rightarrow> ''undefined'' | Some c \<Rightarrow> [c]);
                    result2 = (if level = 2 \<or> level = 5 then result1 @ ''-'' else result1);
                    newMinLat = js_plus minLat (js_times latDiv (js_minus (Num 3) row));
                    newMinLon = js_plus minLon (js_times lonDiv col)
                in getDigiPin_ts_num_loop lat lon (level + 1)
                     newMinLat (js_plus newMinLat latDiv)
                     newMinLon (js_plus newMinLon lonDiv) result2))
      else Inr result)"
  by pat_completeness auto
termination
  by (relation "measure (\<lambda>(lat, lon, level, rest). DIGIPIN_LENGTH - level)") auto

definition getDigiPin_ts_num :: "jsnum \<Rightarrow> jsnum \<Rightarrow> num_error + string" where
  "getDigiPin_ts_num lat lon =
     (if js_less lat (Num BOUNDS_minLat) \<or> js_less (Num BOUNDS_maxLat) lat
      then Inl (OutOfRangeNum Latitude lat BOUNDS_minLat BOUNDS_maxLat)
      else if js_less lon (Num BOUNDS_minLon) \<or> js_less (Num BOUNDS_maxLon) lon
      then Inl (OutOfRangeNum Longitude lon BOUNDS_minLon BOUNDS_maxLon)
      else getDigiPin_ts_num_loop lat lon 0
             (Num BOUNDS_minLat) (Num BOUNDS_maxLat)
             (Num BOUNDS_minLon) (Num BOUNDS_maxLon) ([] @ reserveCapacity 13))"

section \<open>The decoder\<close>

text \<open>
  \<^verbatim>\<open>getLatLngFromDigiPin\<close> of \<^verbatim>\<open>index.ts\<close>. \<^verbatim>\<open>digiPin.replace(/-/g, '')\<close>
  removes every hyphen. \<^verbatim>\<open>pin[i]\<close> is \<open>undefined\<close> beyond the end of the string, and
  \<^verbatim>\<open>CHAR_TO_POSITION.get\<close> of \<open>undefined\<close> finds nothing. The loop returns the final
  rectangle; the function returns its centre as two \<^verbatim>\<open>toFixed(6)\<close> strings.
\<close>

function getLatLngFromDigiPin_loop ::
  "string \<Rightarrow> nat \<Rightarrow> real \<Rightarrow> real \<Rightarrow> real \<Rightarrow> real \<Rightarrow> error + (real \<times> real \<times> real \<times> real)" where
  "getLatLngFromDigiPin_loop pin i minLat maxLat minLon maxLon =
     (if i < DIGIPIN_LENGTH then
        (let char = js_index pin (int i);
             position = (case char of None \<Rightarrow> None | Some ch \<Rightarrow> CHAR_TO_POSITION ch)
         in case position of
              None \<Rightarrow> Inl (InvalidCharacter char i)
            | Some (row, col) \<Rightarrow>
               (let latDiv = (maxLat - minLat) / GRID_SIZE;
                    lonDiv = (maxLon - minLon) / GRID_SIZE;
                    newMinLat = maxLat - latDiv * real (row + 1);
                    newMaxLat = maxLat - latDiv * real row;
                    newMinLon = minLon + lonDiv * real col;
                    newMaxLon = minLon + lonDiv * real (col + 1)
                in getLatLngFromDigiPin_loop pin (i + 1) newMinLat newMaxLat newMinLon newMaxLon))
      else Inr (minLat, maxLat, minLon, maxLon))"
  by pat_completeness auto
termination
  by (relation "measure (\<lambda>(pin, i, rest). DIGIPIN_LENGTH - i)") auto

definition getLatLngFromDigiPin :: "string \<Rightarrow> error + coords" where
  "getLatLngFromDigiPin digiPin =
     (let pin = filter (\<lambda>c. c \<noteq> CHR ''-'') digiPin
      in if length pin \<noteq> DIGIPIN_LENGTH
         then Inl (InvalidLength (length pin) DIGIPIN_LENGTH)
         else case getLatLngFromDigiPin_loop pin 0
                     BOUNDS_minLat BOUNDS_maxLat BOUNDS_minLon BOUNDS_maxLon of
                Inl e \<Rightarrow> Inl e
              | Inr (minLat, maxLat, minLon, maxLon) \<Rightarrow>
                 (let centerLat = (minLat + maxLat) * 0.5;
                      centerLon = (minLon + maxLon) * 0.5
                  in Inr \<lparr>latitude = JString (toFixed centerLat 6),
                          longitude = JString (toFixed centerLon 6)\<rparr>))"

text \<open>
  \<^verbatim>\<open>getLatLngFromDigiPin\<close> of the typed copy: the hyphens are removed by a loop over
  the characters, the new bounds are computed without \<open>row + 1\<close> and \<open>col + 1\<close>, and the
  centre is returned as two numbers, \<^verbatim>\<open>Math.round(c * 1000000) / 1000000\<close>.
\<close>

function strip_hyphens_ts :: "string \<Rightarrow> nat \<Rightarrow> string \<Rightarrow> string" where
  "strip_hyphens_ts digiPin i pin =
     (if i < length digiPin then
        (let char = digiPin ! i
         in strip_hyphens_ts digiPin (i + 1) (if char \<noteq> CHR ''-'' then pin @ [char] else pin))
      else pin)"
  by pat_completeness auto
termination
  by (relation "measure (\<lambda>(digiPin, i, pin). length digiPin - i)") auto

function getLatLngFromDigiPin_ts_loop ::
  "string \<Rightarrow> nat \<Rightarrow> real \<Rightarrow> real \<Rightarrow> real \<Rightarrow> real \<Rightarrow> error + (real \<times> real \<times> real \<times> real)" where
  "getLatLngFromDigiPin_ts_loop pin i minLat maxLat minLon maxLon =
     (if i < DIGIPIN_LENGTH then
        (let char = js_index pin (int i);
             position = (case char of None \<Rightarrow> None | Some ch \<Rightarrow> CHAR_TO_POSITION ch)
         in case position of
              None \<Rightarrow> Inl (InvalidCharacter char i)
            | Some (row, col) \<Rightarrow>
               (let gridSizeReciprocal = 0.25;
                    latRange = maxLat - minLat;
                    lonRange = maxLon - minLon;
                    latDiv = latRange * gridSizeReciprocal;
                    lonDiv = lonRange * gridSizeReciprocal;
                    newMinLat = maxLat - latDiv * real row - latDiv;
                    newMaxLat = maxLat - latDiv * real row;
                    newMinLon = minLon + lonDiv * real col;
                    newMaxLon = newMinLon + lonDiv
                in getLatLngFromDigiPin_ts_loop pin (i + 1)
                     newMinLat newMaxLat newMinLon newMaxLon))
      else Inr (minLat, maxLat, minLon, maxLon))"
  by pat_completeness auto
termination
  by (relation "measure (\<lambda>(pin, i, rest). DIGIPIN_LENGTH - i)") auto

definition getLatLngFromDigiPin_ts :: "string \<Rightarrow> error + coords" where
  "getLatLngFromDigiPin_ts digiPin =
     (let pin = strip_hyphens_ts digiPin 0 []
      in if length pin \<noteq> DIGIPIN_LENGTH
         then Inl (InvalidLength (length pin) DIGIPIN_LENGTH)
         else case getLatLngFromDigiPin_ts_loop pin 0
                     BOUNDS_minLat BOUNDS_maxLat BOUNDS_minLon BOUNDS_maxLon of
                Inl e \<Rightarrow> Inl e
              | Inr (minLat, maxLat, minLon, maxLon) \<Rightarrow>
                 (let centerLat = (minLat + maxLat) * 0.5;
                      centerLon = (minLon + maxLon) * 0.5
                  in Inr \<lparr>latitude = JNumber (of_int (Math_round (centerLat * 1000000)) / 1000000),
                          longitude = JNumber (of_int (Math_round (centerLon * 1000000)) / 1000000)\<rparr>))"

section \<open>Predicates used to state the properties\<close>

text \<open>A symbol is a character the lookup map knows.\<close>

definition is_symbol :: "char \<Rightarrow> bool" where
  "is_symbol ch = (CHAR_TO_POSITION ch \<noteq> None)"

text \<open>
  A well-formed display code: twelve characters, hyphens at the fourth and the eighth
  place, symbols everywhere else (three, three and four of them).
\<close>

definition well_formed_code :: "string \<Rightarrow> bool" where
  "well_formed_code code =
     (length code = 12 \<and> code ! 3 = CHR ''-'' \<and> code ! 7 = CHR ''-'' \<and>
      list_all is_symbol (take 3 code @ take 3 (drop 4 code) @ drop 8 code))"

text \<open>\<^verbatim>\<open>typeof v === 'number'\<close>\<close>

fun is_number :: "jsval \<Rightarrow> bool" where
  "is_number (JNumber x) = True"
| "is_number (JString s) = False"

text \<open>A valid code: ten symbols once the hyphens are removed.\<close>

definition valid_code :: "string \<Rightarrow> bool" where
  "valid_code digiPin =
     (length (filter (\<lambda>c. c \<noteq> CHR ''-'') digiPin) = 10 \<and>
      list_all is_symbol (filter (\<lambda>c. c \<noteq> CHR ''-'') digiPin))"

text \<open>The coordinates the encoder accepts.\<close>

definition in_bounds :: "real \<Rightarrow> real \<Rightarrow> bool" where
  "in_bounds lat lon =
     (BOUNDS_minLat \<le> lat \<and> lat \<le> BOUNDS_maxLat \<and> BOUNDS_minLon \<le> lon \<and> lon \<le> BOUNDS_maxLon)"

text \<open>
  Rounding to six decimals as the typed copy writes it,
  \<^verbatim>\<open>Math.round(x * 1000000) / 1000000\<close>.
\<close>

definition round6 :: "real \<Rightarrow> real" where
  "round6 x = real_of_int (Math_round (x * 1000000)) / 1000000"

text \<open>
  The number a decimal string denotes: an optional minus sign, the digits before the
  point and the digits after it. This is how a caller reads the \<^verbatim>\<open>toFixed\<close>
  strings of \<^verbatim>\<open>index.ts\<close> back as numbers.
\<close>

definition is_digit :: "char \<Rightarrow> bool" where
  "is_digit c = (c \<in> set ''0123456789'')"

definition digits_value :: "string \<Rightarrow> nat" where
  "digits_value s = foldl (\<lambda>a c. 10 * a + (of_char c - 48)) 0 s"

definition decimal_value :: "string \<Rightarrow> real" where
  "decimal_value s =
     (let neg = (take 1 s = ''-'');
          t = (if neg then drop 1 s else s);
          ip = takeWhile (\<lambda>c. c \<noteq> CHR ''.'') t;
          fp = drop 1 (dropWhile (\<lambda>c. c \<noteq> CHR ''.'') t);
          v = real (digits_value ip) + real (digits_value fp) / 10 ^ length fp
      in if neg then - v else v)"

section \<open>The cell of a point\<close>

text \<open>
  The loop invariant of both encoders, for one axis: at level \<open>level\<close> the working
  interval contains the coordinate and is \<open>36 / 4 ^ level\<close> wide.
\<close>

definition cell_inv :: "real \<Rightarrow> nat \<Rightarrow> real \<Rightarrow> real \<Rightarrow> bool" where
  "cell_inv v level mn mx = (mn \<le> v \<and> v \<le> mx \<and> mx - mn = 36 / 4 ^ level)"

text \<open>
  The band of the working interval that holds the coordinate, counted from the lower
  bound: the floored quotient, clamped to \<open>0..3\<close>.
\<close>

definition cell_index :: "real \<Rightarrow> real \<Rightarrow> real \<Rightarrow> nat" where
  "cell_index v mn mx = nat (min 3 (max 0 \<lfloor>(v - mn) / ((mx - mn) / 4)\<rfloor>))"

text \<open>
  The symbols of the cells that hold the point on \<open>n\<close> successive levels, and the
  display grouping that puts a hyphen after the third and the sixth symbol. Both
  encoding loops are proved to compute exactly this.
\<close>

fun cell_symbols :: "real \<Rightarrow> real \<Rightarrow> nat \<Rightarrow> real \<Rightarrow> real \<Rightarrow> real \<Rightarrow> real \<Rightarrow> string" where
  "cell_symbols lat lon 0 minLat maxLat minLon maxLon = []"
| "cell_symbols lat lon (Suc n) minLat maxLat minLon maxLon =
     (let kr = cell_index lat minLat maxLat;
          kc = cell_index lon minLon maxLon;
          latDiv = (maxLat - minLat) / 4;
          lonDiv = (maxLon - minLon) / 4
      in DIGIPIN_GRID ! (3 - kr) ! kc #
         cell_symbols lat lon n
           (minLat + latDiv * real kr) (minLat + latDiv * real kr + latDiv)
           (minLon + lonDiv * real kc) (minLon + lonDiv * real kc + lonDiv))"

fun hyphenate :: "nat \<Rightarrow> string \<Rightarrow> string" where
  "hyphenate level [] = []"
| "hyphenate level (c # cs) =
     c # (if level + 1 = 3 \<or> level + 1 = 6 then CHR ''-'' # hyphenate (level + 1) cs
          else hyphenate (level + 1) cs)"


declare nat_to_string.simps [simp del]
declare getDigiPin_loop.simps [simp del]
declare getDigiPin_ts_loop.simps [simp del]
declare getLatLngFromDigiPin_loop.simps [simp del]
declare getLatLngFromDigiPin_ts_loop.simps [simp del]
declare strip_hyphens_ts.simps [simp del]
declare getDigiPin_indices.simps [simp del]
declare getDigiPin_ts_indices.simps [simp del]
declare getDigiPin_num_loop.simps [simp del]
declare getDigiPin_ts_num_loop.simps [simp del]

section \<open>The alphabet and its inverse\<close>

lemma CHAR_TO_POSITION_unfold:
  "CHAR_TO_POSITION =
     [CHR ''F'' \<mapsto> (0, 0), CHR ''C'' \<mapsto> (0, 1), CHR ''9'' \<mapsto> (0, 2), CHR ''8'' \<mapsto> (0, 3),
      CHR ''J'' \<mapsto> (1, 0), CHR ''3'' \<mapsto> (1, 1), CHR ''2'' \<mapsto> (1, 2), CHR ''7'' \<mapsto> (1, 3),
      CHR ''K'' \<mapsto> (2, 0), CHR ''4'' \<mapsto> (2, 1), CHR ''5'' \<mapsto> (2, 2), CHR ''6'' \<mapsto> (2, 3),
      CHR ''L'' \<mapsto> (3, 0), CHR ''M'' \<mapsto> (3, 1), CHR ''P'' \<mapsto> (3, 2), CHR ''T'' \<mapsto> (3, 3)]"
  unfolding CHAR_TO_POSITION_def DIGIPIN_GRID_def
  by (simp add: upt_conv_Cons eval_nat_numeral)

lemma lt_4_cases: "n < (4::nat) \<Longrightarrow> n = 0 \<or> n = 1 \<or> n = 2 \<or> n = 3"
  by arith

lemma CHAR_TO_POSITION_grid:
  assumes "r < 4" "c < 4"
  shows "CHAR_TO_POSITION (DIGIPIN_GRID ! r ! c) = Some (r, c)"
proof -
  have r: "r = 0 \<or> r = 1 \<or> r = 2 \<or> r = 3" using assms(1) by (rule lt_4_cases)
  have c: "c = 0 \<or> c = 1 \<or> c = 2 \<or> c = 3" using assms(2) by (rule lt_4_cases)
  from r c show ?thesis
    by (elim disjE; simp add: CHAR_TO_POSITION_unfold DIGIPIN_GRID_def)
qed

lemma CHAR_TO_POSITION_Some:
  "CHAR_TO_POSITION ch = Some (r, c) \<Longrightarrow> r < 4 \<and> c < 4 \<and> DIGIPIN_GRID ! r ! c = ch"
  unfolding CHAR_TO_POSITION_unfold DIGIPIN_GRID_def
  by (simp split: if_splits)

text \<open>
  C4: the symbol table and the symbol-to-position lookup are exact inverses. For every
  \<open>(r, c)\<close> in \<open>0..3 \<times> 0..3\<close> the position stored for the symbol at \<open>(r, c)\<close> is
  \<open>(r, c)\<close>; conversely every symbol with a position is the table's symbol at that
  position, and the sixteen symbols of the table are pairwise distinct.
\<close>

theorem alphabet_bijection:
  "(\<forall>r<4. \<forall>c<4. CHAR_TO_POSITION (DIGIPIN_GRID ! r ! c) = Some (r, c)) \<and>
   (\<forall>ch r c. CHAR_TO_POSITION ch = Some (r, c) \<longrightarrow> r < 4 \<and> c < 4 \<and> DIGIPIN_GRID ! r ! c = ch) \<and>
   distinct (concat DIGIPIN_GRID) \<and> length (concat DIGIPIN_GRID) = 16"
proof (intro conjI allI impI)
  fix r c :: nat
  assume "r < 4" "c < 4"
  then show "CHAR_TO_POSITION (DIGIPIN_GRID ! r ! c) = Some (r, c)"
    by (rule CHAR_TO_POSITION_grid)
next
  fix ch r c
  assume h: "CHAR_TO_POSITION ch = Some (r, c)"
  show "r < 4" "c < 4" "DIGIPIN_GRID ! r ! c = ch"
    using CHAR_TO_POSITION_Some [OF h] by simp_all
next
  show "distinct (concat DIGIPIN_GRID)" by (simp add: DIGIPIN_GRID_def)
  show "length (concat DIGIPIN_GRID) = 16" by (simp add: DIGIPIN_GRID_def)
qed

theorem alphabet_bijection_witness:
  "(2::nat) < 4 \<and> (1::nat) < 4 \<and> CHAR_TO_POSITION (DIGIPIN_GRID ! 2 ! 1) = Some (2, 1) \<and>
   CHAR_TO_POSITION (CHR ''4'') = Some (2, 1) \<and> DIGIPIN_GRID ! 2 ! 1 = CHR ''4''"
proof -
  have g: "DIGIPIN_GRID ! 2 ! 1 = CHR ''4''" by (simp add: DIGIPIN_GRID_def)
  have "CHAR_TO_POSITION (DIGIPIN_GRID ! 2 ! 1) = Some (2, 1)"
    using alphabet_bijection by simp
  with g show ?thesis by simp
qed

section \<open>The decoder's control flow\<close>

text \<open>The typed copy's loop that drops the hyphens computes the same as the regular
  expression of \<^verbatim>\<open>index.ts\<close>, and the two decoding loops compute the same rectangle.\<close>

lemma strip_hyphens_ts_filter:
  "strip_hyphens_ts s i pin = pin @ filter (\<lambda>c. c \<noteq> CHR ''-'') (drop i s)"
proof (induction "length s - i" arbitrary: i pin)
  case 0
  then show ?case by (simp add: strip_hyphens_ts.simps)
next
  case (Suc n)
  then have lt: "i < length s" and n: "n = length s - (i + 1)" by simp_all
  have d: "drop i s = s ! i # drop (i + 1) s"
    using lt by (simp add: Cons_nth_drop_Suc)
  show ?case
    using lt Suc.hyps(1) [OF n] by (subst strip_hyphens_ts.simps) (simp add: d Let_def)
qed

lemma decode_loops_agree:
  "getLatLngFromDigiPin_ts_loop pin i minLat maxLat minLon maxLon =
   getLatLngFromDigiPin_loop pin i minLat maxLat minLon maxLon"
proof (induction "DIGIPIN_LENGTH - i" arbitrary: i minLat maxLat minLon maxLon)
  case 0
  then show ?case
    by (simp add: getLatLngFromDigiPin_ts_loop.simps getLatLngFromDigiPin_loop.simps)
next
  case (Suc n)
  then have lt: "i < DIGIPIN_LENGTH" and n: "n = DIGIPIN_LENGTH - Suc i" by simp_all
  show ?case
    apply (subst getLatLngFromDigiPin_ts_loop.simps)
    apply (subst getLatLngFromDigiPin_loop.simps)
    apply (simp add: Let_def lt Suc.hyps(1) [OF n] GRID_SIZE_def algebra_simps
        diff_divide_distrib add_divide_distrib split: option.splits)
    done
qed

lemma decode_loop_step:
  assumes "i < DIGIPIN_LENGTH" "i < length pin" "CHAR_TO_POSITION (pin ! i) = Some (r, c)"
  shows "getLatLngFromDigiPin_loop pin i minLat maxLat minLon maxLon =
         getLatLngFromDigiPin_loop pin (Suc i)
           (maxLat - (maxLat - minLat) / 4 * real (r + 1)) (maxLat - (maxLat - minLat) / 4 * real r)
           (minLon + (maxLon - minLon) / 4 * real c) (minLon + (maxLon - minLon) / 4 * real (c + 1))"
  using assms
  by (subst getLatLngFromDigiPin_loop.simps) (simp add: Let_def js_index_def GRID_SIZE_def)

lemma decode_loop_bad:
  assumes "i < DIGIPIN_LENGTH" "i < length pin" "\<not> is_symbol (pin ! i)"
  shows "getLatLngFromDigiPin_loop pin i minLat maxLat minLon maxLon =
         Inl (InvalidCharacter (Some (pin ! i)) i)"
proof -
  have "CHAR_TO_POSITION (pin ! i) = None"
    using assms(3) unfolding is_symbol_def by blast
  then show ?thesis
    using assms(1,2)
    by (subst getLatLngFromDigiPin_loop.simps) (simp add: Let_def js_index_def)
qed

lemma decode_loop_control:
  assumes "length pin = DIGIPIN_LENGTH" "i \<le> DIGIPIN_LENGTH"
  shows "(list_all is_symbol (drop i pin) \<longrightarrow>
            (\<exists>rect. getLatLngFromDigiPin_loop pin i minLat maxLat minLon maxLon = Inr rect)) \<and>
         (\<not> list_all is_symbol (drop i pin) \<longrightarrow>
            getLatLngFromDigiPin_loop pin i minLat maxLat minLon maxLon =
              Inl (InvalidCharacter
                     (Some (pin ! (i + length (takeWhile is_symbol (drop i pin)))))
                     (i + length (takeWhile is_symbol (drop i pin)))))"
  using assms
proof (induction "DIGIPIN_LENGTH - i" arbitrary: i minLat maxLat minLon maxLon)
  case 0
  then show ?case by (simp add: getLatLngFromDigiPin_loop.simps)
next
  case (Suc n)
  then have lt: "i < DIGIPIN_LENGTH" "i < length pin" and n: "n = DIGIPIN_LENGTH - Suc i"
    and le: "Suc i \<le> DIGIPIN_LENGTH"
    by simp_all
  have d: "drop i pin = pin ! i # drop (Suc i) pin"
    using lt by (simp add: Cons_nth_drop_Suc)
  show ?case
  proof (cases "is_symbol (pin ! i)")
    case False
    then show ?thesis
      using decode_loop_bad [OF lt False] by (simp add: d)
  next
    case True
    then obtain r c where rc: "CHAR_TO_POSITION (pin ! i) = Some (r, c)"
      by (auto simp: is_symbol_def)
    show ?thesis
      unfolding decode_loop_step [OF lt rc] d
      using Suc.hyps(1) [OF n Suc.prems(1) le] True
      by simp
  qed
qed

lemma strip_hyphens_ts_eq: "strip_hyphens_ts s 0 [] = filter (\<lambda>c. c \<noteq> CHR ''-'') s"
  by (simp add: strip_hyphens_ts_filter)

text \<open>
  C8: decoding is invariant under separators. Decoding any input equals decoding the same
  input with every hyphen removed, in both copies; in particular this holds for every
  valid code written with its separators.
\<close>

theorem separator_invariance:
  "getLatLngFromDigiPin digiPin =
     getLatLngFromDigiPin (filter (\<lambda>c. c \<noteq> CHR ''-'') digiPin) \<and>
   getLatLngFromDigiPin_ts digiPin =
     getLatLngFromDigiPin_ts (filter (\<lambda>c. c \<noteq> CHR ''-'') digiPin)"
  by (simp add: getLatLngFromDigiPin_def getLatLngFromDigiPin_ts_def strip_hyphens_ts_eq)

lemma decode_invalid_length:
  assumes "length (filter (\<lambda>c. c \<noteq> CHR ''-'') digiPin) \<noteq> 10"
  shows "getLatLngFromDigiPin digiPin =
           Inl (InvalidLength (length (filter (\<lambda>c. c \<noteq> CHR ''-'') digiPin)) 10)"
    and "getLatLngFromDigiPin_ts digiPin =
           Inl (InvalidLength (length (filter (\<lambda>c. c \<noteq> CHR ''-'') digiPin)) 10)"
  using assms
  by (simp_all add: getLatLngFromDigiPin_def getLatLngFromDigiPin_ts_def strip_hyphens_ts_eq
      DIGIPIN_LENGTH_def)

lemma decode_invalid_symbol:
  assumes "length (filter (\<lambda>c. c \<noteq> CHR ''-'') digiPin) = 10"
    and "\<not> list_all is_symbol (filter (\<lambda>c. c \<noteq> CHR ''-'') digiPin)"
    and "k = length (takeWhile is_symbol (filter (\<lambda>c. c \<noteq> CHR ''-'') digiPin))"
  shows "getLatLngFromDigiPin digiPin =
           Inl (InvalidCharacter (Some (filter (\<lambda>c. c \<noteq> CHR ''-'') digiPin ! k)) k)"
    and "getLatLngFromDigiPin_ts digiPin =
           Inl (InvalidCharacter (Some (filter (\<lambda>c. c \<noteq> CHR ''-'') digiPin ! k)) k)"
  using assms
    decode_loop_control [of "filter (\<lambda>c. c \<noteq> CHR ''-'') digiPin" 0
      BOUNDS_minLat BOUNDS_maxLat BOUNDS_minLon BOUNDS_maxLon]
  by (simp_all add: getLatLngFromDigiPin_def getLatLngFromDigiPin_ts_def strip_hyphens_ts_eq
      decode_loops_agree DIGIPIN_LENGTH_def Let_def)

lemma first_bad_symbol:
  assumes "\<not> list_all P xs"
  shows "length (takeWhile P xs) < length xs" "\<not> P (xs ! length (takeWhile P xs))"
    "list_all P (take (length (takeWhile P xs)) xs)"
proof -
  show lt: "length (takeWhile P xs) < length xs"
    using assms by (induction xs) auto
  show "\<not> P (xs ! length (takeWhile P xs))"
    using lt by (rule nth_length_takeWhile)
  have "take (length (takeWhile P xs)) xs = takeWhile P xs"
    by (induction xs) auto
  then show "list_all P (take (length (takeWhile P xs)) xs)"
    by (simp add: list_all_iff) (meson set_takeWhileD)
qed

lemma decode_valid:
  assumes "length (filter (\<lambda>c. c \<noteq> CHR ''-'') digiPin) = 10"
    and "list_all is_symbol (filter (\<lambda>c. c \<noteq> CHR ''-'') digiPin)"
  shows "\<exists>c. getLatLngFromDigiPin digiPin = Inr c"
    and "\<exists>c. getLatLngFromDigiPin_ts digiPin = Inr c"
  using assms
    decode_loop_control [of "filter (\<lambda>c. c \<noteq> CHR ''-'') digiPin" 0
      BOUNDS_minLat BOUNDS_maxLat BOUNDS_minLon BOUNDS_maxLon]
  by (auto simp add: getLatLngFromDigiPin_def getLatLngFromDigiPin_ts_def strip_hyphens_ts_eq
      decode_loops_agree DIGIPIN_LENGTH_def Let_def)

text \<open>
  C6: the decoder fails exactly on an invalid stripped input. With \<open>pin\<close> the input
  without its hyphens: if \<open>pin\<close> has not exactly ten characters the failure is
  \<open>InvalidLength\<close> with the observed length and 10, whatever the characters are;
  otherwise, if some character of \<open>pin\<close> is no symbol, the failure is
  \<open>InvalidCharacter\<close> with the first such character and its zero-based index \<open>k\<close> in
  \<open>pin\<close>; otherwise the decoder returns a result. Both copies behave so.
\<close>

theorem decode_failures:
  "(let pin = filter (\<lambda>c. c \<noteq> CHR ''-'') digiPin;
        k = length (takeWhile is_symbol pin)
    in (length pin \<noteq> 10 \<longrightarrow>
          getLatLngFromDigiPin digiPin = Inl (InvalidLength (length pin) 10) \<and>
          getLatLngFromDigiPin_ts digiPin = Inl (InvalidLength (length pin) 10)) \<and>
       (length pin = 10 \<and> \<not> list_all is_symbol pin \<longrightarrow>
          k < 10 \<and> \<not> is_symbol (pin ! k) \<and> list_all is_symbol (take k pin) \<and>
          getLatLngFromDigiPin digiPin = Inl (InvalidCharacter (Some (pin ! k)) k) \<and>
          getLatLngFromDigiPin_ts digiPin = Inl (InvalidCharacter (Some (pin ! k)) k)) \<and>
       (length pin = 10 \<and> list_all is_symbol pin \<longrightarrow>
          (\<exists>c. getLatLngFromDigiPin digiPin = Inr c) \<and>
          (\<exists>c. getLatLngFromDigiPin_ts digiPin = Inr c)))"
  unfolding Let_def
proof (intro conjI impI)
  assume h: "length (filter (\<lambda>c. c \<noteq> CHR ''-'') digiPin) \<noteq> 10"
  show "getLatLngFromDigiPin digiPin =
          Inl (InvalidLength (length (filter (\<lambda>c. c \<noteq> CHR ''-'') digiPin)) 10)"
    using h by (rule decode_invalid_length)
  show "getLatLngFromDigiPin_ts digiPin =
          Inl (InvalidLength (length (filter (\<lambda>c. c \<noteq> CHR ''-'') digiPin)) 10)"
    using h by (rule decode_invalid_length)
next
  assume h: "length (filter (\<lambda>c. c \<noteq> CHR ''-'') digiPin) = 10 \<and>
             \<not> list_all is_symbol (filter (\<lambda>c. c \<noteq> CHR ''-'') digiPin)"
  then have len: "length (filter (\<lambda>c. c \<noteq> CHR ''-'') digiPin) = 10"
    and bad: "\<not> list_all is_symbol (filter (\<lambda>c. c \<noteq> CHR ''-'') digiPin)"
    by simp_all
  show "length (takeWhile is_symbol (filter (\<lambda>c. c \<noteq> CHR ''-'') digiPin)) < 10"
    using first_bad_symbol(1) [OF bad] len by simp
  show "\<not> is_symbol (filter (\<lambda>c. c \<noteq> CHR ''-'') digiPin !
            length (takeWhile is_symbol (filter (\<lambda>c. c \<noteq> CHR ''-'') digiPin)))"
    using bad by (rule first_bad_symbol(2))
  show "list_all is_symbol
          (take (length (takeWhile is_symbol (filter (\<lambda>c. c \<noteq> CHR ''-'') digiPin)))
             (filter (\<lambda>c. c \<noteq> CHR ''-'') digiPin))"
    using bad by (rule first_bad_symbol(3))
  show "getLatLngFromDigiPin digiPin =
          Inl (InvalidCharacter
                 (Some (filter (\<lambda>c. c \<noteq> CHR ''-'') digiPin !
                    length (takeWhile is_symbol (filter (\<lambda>c. c \<noteq> CHR ''-'') digiPin))))
                 (length (takeWhile is_symbol (filter (\<lambda>c. c \<noteq> CHR ''-'') digiPin))))"
    using len bad refl by (rule decode_invalid_symbol(1))
  show "getLatLngFromDigiPin_ts digiPin =
          Inl (InvalidCharacter
                 (Some (filter (\<lambda>c. c \<noteq> CHR ''-'') digiPin !
                    length (takeWhile is_symbol (filter (\<lambda>c. c \<noteq> CHR ''-'') digiPin))))
                 (length (takeWhile is_symbol (filter (\<lambda>c. c \<noteq> CHR ''-'') digiPin))))"
    using len bad refl by (rule decode_invalid_symbol(2))
next
  assume h: "length (filter (\<lambda>c. c \<noteq> CHR ''-'') digiPin) = 10 \<and>
             list_all is_symbol (filter (\<lambda>c. c \<noteq> CHR ''-'') digiPin)"
  then show "\<exists>c. getLatLngFromDigiPin digiPin = Inr c"
    using decode_valid(1) by blast
  from h show "\<exists>c. getLatLngFromDigiPin_ts digiPin = Inr c"
    using decode_valid(2) by blast
qed

theorem decode_failures_witness:
  "getLatLngFromDigiPin ''4FK-5MK'' = Inl (InvalidLength 6 10) \<and>
   getLatLngFromDigiPin_ts ''4FK-5MK'' = Inl (InvalidLength 6 10) \<and>
   getLatLngFromDigiPin ''XFK-5MK-9PPK'' = Inl (InvalidCharacter (Some (CHR ''X'')) 0) \<and>
   getLatLngFromDigiPin_ts ''XFK-5MK-9PPK'' = Inl (InvalidCharacter (Some (CHR ''X'')) 0) \<and>
   getLatLngFromDigiPin ''4FK-ZMK-9PPK'' = Inl (InvalidCharacter (Some (CHR ''Z'')) 3) \<and>
   (\<exists>c. getLatLngFromDigiPin ''4FK-5MK-9PPK'' = Inr c) \<and>
   (\<exists>c. getLatLngFromDigiPin_ts ''4FK5MK9PPK'' = Inr c)"
  using decode_failures [of "''4FK-5MK''"] decode_failures [of "''XFK-5MK-9PPK''"]
    decode_failures [of "''4FK-ZMK-9PPK''"] decode_failures [of "''4FK-5MK-9PPK''"]
    decode_failures [of "''4FK5MK9PPK''"]
  by (simp add: Let_def is_symbol_def CHAR_TO_POSITION_unfold)

section \<open>Concrete runs\<close>

lemmas constants =
  DIGIPIN_LENGTH_def GRID_SIZE_def HYPHEN_POSITIONS_def
  BOUNDS_minLat_def BOUNDS_maxLat_def BOUNDS_minLon_def BOUNDS_maxLon_def

lemmas encode_eval =
  getDigiPin_def getDigiPin_loop.simps constants Let_def js_index_def DIGIPIN_GRID_def js_join_def

lemmas encode_ts_eval =
  getDigiPin_ts_def getDigiPin_ts_loop.simps constants Let_def js_index_def DIGIPIN_GRID_def
  reserveCapacity_def

lemma strip_example: "strip_hyphens_ts ''4FK-5MK-9PPK'' 0 [] = ''4FK5MK9PPK''"
  by (simp add: strip_hyphens_ts.simps Let_def)

lemma decode_loop_example:
  "getLatLngFromDigiPin_loop ''4FK5MK9PPK'' 0 BOUNDS_minLat BOUNDS_maxLat BOUNDS_minLon BOUNDS_maxLon
     = Inr (4972489 / 262144, 2486249 / 131072, 2386237 / 32768, 19089905 / 262144)"
  by (simp add: getLatLngFromDigiPin_loop.simps constants Let_def js_index_def
      CHAR_TO_POSITION_unfold)

lemma decode_ts_loop_example:
  "getLatLngFromDigiPin_ts_loop ''4FK5MK9PPK'' 0
     BOUNDS_minLat BOUNDS_maxLat BOUNDS_minLon BOUNDS_maxLon
     = Inr (4972489 / 262144, 2486249 / 131072, 2386237 / 32768, 19089905 / 262144)"
  by (simp add: getLatLngFromDigiPin_ts_loop.simps constants Let_def js_index_def
      CHAR_TO_POSITION_unfold)

lemma nat_to_string_examples:
  "nat_to_string 18968557 = ''18968557''" "nat_to_string 72822191 = ''72822191''"
  by (simp_all add: nat_to_string.simps digit_char_def)

lemma toFixed_examples:
  "toFixed (9944987 / 524288) 6 = ''18.968557''"
  "toFixed (38179801 / 524288) 6 = ''72.822191''"
  by (simp_all add: toFixed_def Let_def nat_to_string_examples)

lemma encode_example: "getDigiPin 18.968557 72.822191 = Inr ''4FK-5MK-9PPK''"
  by (simp add: encode_eval)

lemma encode_ts_example: "getDigiPin_ts 18.968557 72.822191 = Inr ''4FK-5MK-9PPK''"
  by (simp add: encode_ts_eval)

lemma decode_example:
  "getLatLngFromDigiPin ''4FK-5MK-9PPK'' =
     Inr \<lparr>latitude = JString ''18.968557'', longitude = JString ''72.822191''\<rparr>"
  by (simp add: getLatLngFromDigiPin_def decode_loop_example toFixed_examples DIGIPIN_LENGTH_def)

lemma decode_plain_example:
  "getLatLngFromDigiPin ''4FK5MK9PPK'' =
     Inr \<lparr>latitude = JString ''18.968557'', longitude = JString ''72.822191''\<rparr>"
  by (simp add: getLatLngFromDigiPin_def decode_loop_example toFixed_examples DIGIPIN_LENGTH_def)

lemma decode_ts_example:
  "getLatLngFromDigiPin_ts ''4FK-5MK-9PPK'' =
     Inr \<lparr>latitude = JNumber 18.968557, longitude = JNumber 72.822191\<rparr>"
  by (simp add: getLatLngFromDigiPin_ts_def strip_example decode_ts_loop_example
      Math_round_def DIGIPIN_LENGTH_def)

text \<open>
  C3: \<open>encode(18.968557, 72.822191)\<close> is exactly \<open>4FK-5MK-9PPK\<close>, and decoding
  \<open>4FK-5MK-9PPK\<close> gives latitude 18.968557 and longitude 72.822191 after rounding to six
  decimals: as the strings \<open>18.968557\<close> and \<open>72.822191\<close> in \<^verbatim>\<open>index.ts\<close>, as the
  numbers in the typed copy.
\<close>

theorem concrete_vector:
  "getDigiPin 18.968557 72.822191 = Inr ''4FK-5MK-9PPK'' \<and>
   getDigiPin_ts 18.968557 72.822191 = Inr ''4FK-5MK-9PPK'' \<and>
   getLatLngFromDigiPin ''4FK-5MK-9PPK'' =
     Inr \<lparr>latitude = JString ''18.968557'', longitude = JString ''72.822191''\<rparr> \<and>
   getLatLngFromDigiPin_ts ''4FK-5MK-9PPK'' =
     Inr \<lparr>latitude = JNumber 18.968557, longitude = JNumber 72.822191\<rparr>"
  using encode_example encode_ts_example decode_example decode_ts_example
  by (intro conjI)

text \<open>
  C7: the encoder succeeds on the exact corners of the bounding box. At \<open>(2.5, 63.5)\<close>
  every level selects the south-west cell \<open>L\<close>; at \<open>(38.5, 99.5)\<close> the floored index
  is 4 at every level and is clamped to the north-east cell \<open>8\<close>. Both results are
  well-formed codes of ten symbols in groups of three, three and four.
\<close>

theorem boundary_corners:
  "getDigiPin 2.5 63.5 = Inr ''LLL-LLL-LLLL'' \<and>
   getDigiPin 38.5 99.5 = Inr ''888-888-8888'' \<and>
   getDigiPin_ts 2.5 63.5 = Inr ''LLL-LLL-LLLL'' \<and>
   getDigiPin_ts 38.5 99.5 = Inr ''888-888-8888'' \<and>
   well_formed_code ''LLL-LLL-LLLL'' \<and> well_formed_code ''888-888-8888''"
proof (intro conjI)
  show "getDigiPin 2.5 63.5 = Inr ''LLL-LLL-LLLL''" by (simp add: encode_eval)
  show "getDigiPin 38.5 99.5 = Inr ''888-888-8888''" by (simp add: encode_eval)
  show "getDigiPin_ts 2.5 63.5 = Inr ''LLL-LLL-LLLL''" by (simp add: encode_ts_eval)
  show "getDigiPin_ts 38.5 99.5 = Inr ''888-888-8888''" by (simp add: encode_ts_eval)
  show "well_formed_code ''LLL-LLL-LLLL''"
    by (simp add: well_formed_code_def is_symbol_def CHAR_TO_POSITION_unfold)
  show "well_formed_code ''888-888-8888''"
    by (simp add: well_formed_code_def is_symbol_def CHAR_TO_POSITION_unfold)
qed

section \<open>The encoder's loop invariant\<close>

text \<open>
  One level of either encoder keeps the invariant: the clamped index is in \<open>0..3\<close> and
  the selected band contains the coordinate and is a quarter as wide.
\<close>

lemma cell_index_step:
  assumes inv: "cell_inv v level mn mx"
  defines "d \<equiv> (mx - mn) / 4"
  defines "fl \<equiv> \<lfloor>(v - mn) / d\<rfloor>"
  shows "0 \<le> fl"
    and "int (cell_index v mn mx) = min 3 fl"
    and "cell_index v mn mx < 4"
    and "cell_inv v (Suc level) (mn + d * real (cell_index v mn mx))
           (mn + d * real (cell_index v mn mx) + d)"
proof -
  have w: "mx - mn = 36 / 4 ^ level" and lo: "mn \<le> v" and hi: "v \<le> mx"
    using inv by (simp_all add: cell_inv_def)
  have dpos: "0 < d" by (simp add: d_def w)
  define x where "x = (v - mn) / d"
  have x0: "0 \<le> x" using lo dpos by (simp add: x_def)
  have "v - mn \<le> 4 * d" using hi by (simp add: d_def)
  then have x4: "x \<le> 4" using dpos by (simp add: x_def pos_divide_le_eq)
  have vx: "v - mn = d * x" using dpos by (simp add: x_def)
  show fl0: "0 \<le> fl" using x0 by (simp add: fl_def x_def)
  have k: "cell_index v mn mx = nat (min 3 fl)"
    using fl0 by (simp add: cell_index_def fl_def d_def max_def)
  show ki: "int (cell_index v mn mx) = min 3 fl" using fl0 by (simp add: k)
  show "cell_index v mn mx < 4" using fl0 by (simp add: k)
  have kr: "real (cell_index v mn mx) = of_int (min 3 fl)"
    using ki by (metis of_int_of_nat_eq)
  have "of_int (min 3 fl) \<le> (of_int fl :: real)" by simp
  also have "\<dots> \<le> x" by (simp add: fl_def x_def)
  finally have l1: "real (cell_index v mn mx) \<le> x" by (simp add: kr)
  have u1: "x \<le> real (cell_index v mn mx) + 1"
  proof (cases "fl \<le> 3")
    case True
    then have "real (cell_index v mn mx) = of_int fl" by (simp add: kr min_def)
    moreover have "x < of_int fl + 1" unfolding fl_def x_def by linarith
    ultimately show ?thesis by simp
  next
    case False
    then have "real (cell_index v mn mx) = 3" by (simp add: kr min_def)
    then show ?thesis using x4 by simp
  qed
  have "d * real (cell_index v mn mx) \<le> d * x"
    using l1 dpos by (simp add: mult_left_mono)
  then have a: "mn + d * real (cell_index v mn mx) \<le> v"
    using vx by linarith
  have "d * x \<le> d * (real (cell_index v mn mx) + 1)"
    using u1 dpos by (simp add: mult_left_mono)
  then have b: "v \<le> mn + d * real (cell_index v mn mx) + d"
    using vx by (simp add: algebra_simps)
  have c: "d = 36 / 4 ^ Suc level" by (simp add: d_def w)
  show "cell_inv v (Suc level) (mn + d * real (cell_index v mn mx))
           (mn + d * real (cell_index v mn mx) + d)"
    using a b c by (simp add: cell_inv_def)
qed

lemma clamp_row:
  fixes fl :: int
  assumes "0 \<le> fl" "int k = min 3 fl"
  shows "min 3 (max 0 (3 - fl)) = int (3 - k)"
    and "(if 3 - (if fl > 3 then 3 else fl) < 0 then 0 else 3 - (if fl > 3 then 3 else fl))
           = int (3 - k)"
    and "(3::int) - int (3 - k) = int k"
  using assms by (auto simp: min_def max_def split: if_splits)

lemma clamp_col:
  fixes fl :: int
  assumes "0 \<le> fl" "int k = min 3 fl"
  shows "min 3 (max 0 fl) = int k"
    and "(if (if fl > 3 then 3 else fl) < 0 then 0 else (if fl > 3 then 3 else fl)) = int k"
  using assms by (auto simp: min_def max_def split: if_splits)

lemma grid_dims: "length DIGIPIN_GRID = 4" "r < 4 \<Longrightarrow> length (DIGIPIN_GRID ! r) = 4"
proof -
  show "length DIGIPIN_GRID = 4" by (simp add: DIGIPIN_GRID_def)
  assume "r < 4"
  then have "r = 0 \<or> r = 1 \<or> r = 2 \<or> r = 3" by (rule lt_4_cases)
  then show "length (DIGIPIN_GRID ! r) = 4"
    by (elim disjE; simp add: DIGIPIN_GRID_def)
qed

lemma getDigiPin_loop_step:
  assumes lt: "level < DIGIPIN_LENGTH"
    and ilat: "cell_inv lat level minLat maxLat"
    and ilon: "cell_inv lon level minLon maxLon"
  shows "getDigiPin_loop lat lon level minLat maxLat minLon maxLon result =
         getDigiPin_loop lat lon (Suc level)
           (minLat + (maxLat - minLat) / 4 * real (cell_index lat minLat maxLat))
           (minLat + (maxLat - minLat) / 4 * real (cell_index lat minLat maxLat)
              + (maxLat - minLat) / 4)
           (minLon + (maxLon - minLon) / 4 * real (cell_index lon minLon maxLon))
           (minLon + (maxLon - minLon) / 4 * real (cell_index lon minLon maxLon)
              + (maxLon - minLon) / 4)
           (result @ map Some (hyphenate level
              [DIGIPIN_GRID ! (3 - cell_index lat minLat maxLat) ! cell_index lon minLon maxLon]))"
proof -
  define kr where "kr = cell_index lat minLat maxLat"
  define kc where "kc = cell_index lon minLon maxLon"
  note r = cell_index_step [OF ilat, folded kr_def]
  note c = cell_index_step [OF ilon, folded kc_def]
  have row: "min 3 (max 0 (3 - \<lfloor>(lat - minLat) / ((maxLat - minLat) / 4)\<rfloor>)) = int (3 - kr)"
    using r(1,2) by (rule clamp_row(1))
  have col: "min 3 (max 0 \<lfloor>(lon - minLon) / ((maxLon - minLon) / 4)\<rfloor>) = int kc"
    using c(1,2) by (rule clamp_col(1))
  have unrow: "(3::int) - int (3 - kr) = int kr" using r(1,2) by (rule clamp_row(3))
  have len: "length (DIGIPIN_GRID ! (3 - kr)) = 4" by (rule grid_dims) simp
  have nk: "nat (3 - int kr) = 3 - kr" by simp
  show ?thesis
    unfolding kr_def [symmetric] kc_def [symmetric]
    apply (subst getDigiPin_loop.simps)
    apply (simp only: Let_def GRID_SIZE_def row col lt if_True)
    using r(3) c(3)
    apply (simp add: js_index_def grid_dims(1) len nk unrow HYPHEN_POSITIONS_def)
    done
qed

lemma getDigiPin_ts_loop_step:
  assumes lt: "level < DIGIPIN_LENGTH"
    and ilat: "cell_inv lat level minLat maxLat"
    and ilon: "cell_inv lon level minLon maxLon"
  shows "getDigiPin_ts_loop lat lon level minLat maxLat minLon maxLon result =
         getDigiPin_ts_loop lat lon (Suc level)
           (minLat + (maxLat - minLat) / 4 * real (cell_index lat minLat maxLat))
           (minLat + (maxLat - minLat) / 4 * real (cell_index lat minLat maxLat)
              + (maxLat - minLat) / 4)
           (minLon + (maxLon - minLon) / 4 * real (cell_index lon minLon maxLon))
           (minLon + (maxLon - minLon) / 4 * real (cell_index lon minLon maxLon)
              + (maxLon - minLon) / 4)
           (result @ hyphenate level
              [DIGIPIN_GRID ! (3 - cell_index lat minLat maxLat) ! cell_index lon minLon maxLon])"
proof -
  define kr where "kr = cell_index lat minLat maxLat"
  define kc where "kc = cell_index lon minLon maxLon"
  note r = cell_index_step [OF ilat, folded kr_def]
  note c = cell_index_step [OF ilon, folded kc_def]
  have q: "(x::real) * 0.25 = x / 4" for x by simp
  define fr where "fr = \<lfloor>(lat - minLat) / ((maxLat - minLat) / 4)\<rfloor>"
  define fc where "fc = \<lfloor>(lon - minLon) / ((maxLon - minLon) / 4)\<rfloor>"
  have row: "(if 3 - (if fr > 3 then 3 else fr) < 0 then 0 else 3 - (if fr > 3 then 3 else fr))
               = int (3 - kr)"
    using r(1,2) unfolding fr_def by (rule clamp_row(2))
  have col: "(if (if fc > 3 then 3 else fc) < 0 then 0 else (if fc > 3 then 3 else fc)) = int kc"
    using c(1,2) unfolding fc_def by (rule clamp_col(2))
  have unrow: "(3::int) - int (3 - kr) = int kr" using r(1,2) by (rule clamp_row(3))
  have len: "length (DIGIPIN_GRID ! (3 - kr)) = 4" by (rule grid_dims) simp
  have nk: "nat (3 - int kr) = 3 - kr" by simp
  show ?thesis
    unfolding kr_def [symmetric] kc_def [symmetric]
    apply (subst getDigiPin_ts_loop.simps)
    apply (simp only: Let_def q fr_def [symmetric] fc_def [symmetric] row col lt if_True)
    using r(3) c(3)
    apply (simp add: js_index_def grid_dims(1) len nk unrow)
    done
qed

lemma getDigiPin_loop_correct:
  assumes "level \<le> DIGIPIN_LENGTH"
    and "cell_inv lat level minLat maxLat"
    and "cell_inv lon level minLon maxLon"
  shows "getDigiPin_loop lat lon level minLat maxLat minLon maxLon result =
         Inr (result @ map Some (hyphenate level
               (cell_symbols lat lon (DIGIPIN_LENGTH - level) minLat maxLat minLon maxLon)))"
  using assms
proof (induction "DIGIPIN_LENGTH - level" arbitrary: level minLat maxLat minLon maxLon result)
  case 0
  then show ?case by (simp add: getDigiPin_loop.simps)
next
  case (Suc n)
  then have lt: "level < DIGIPIN_LENGTH" and n: "n = DIGIPIN_LENGTH - Suc level"
    and le: "Suc level \<le> DIGIPIN_LENGTH" and m: "DIGIPIN_LENGTH - level = Suc n"
    by simp_all
  note ilat = cell_index_step(4) [OF Suc.prems(2)]
  note ilon = cell_index_step(4) [OF Suc.prems(3)]
  show ?case
    unfolding getDigiPin_loop_step [OF lt Suc.prems(2,3)] Suc.hyps(1) [OF n le ilat ilon] m
    by (simp add: Let_def n)
qed

lemma getDigiPin_ts_loop_correct:
  assumes "level \<le> DIGIPIN_LENGTH"
    and "cell_inv lat level minLat maxLat"
    and "cell_inv lon level minLon maxLon"
  shows "getDigiPin_ts_loop lat lon level minLat maxLat minLon maxLon result =
         Inr (result @ hyphenate level
               (cell_symbols lat lon (DIGIPIN_LENGTH - level) minLat maxLat minLon maxLon))"
  using assms
proof (induction "DIGIPIN_LENGTH - level" arbitrary: level minLat maxLat minLon maxLon result)
  case 0
  then show ?case by (simp add: getDigiPin_ts_loop.simps)
next
  case (Suc n)
  then have lt: "level < DIGIPIN_LENGTH" and n: "n = DIGIPIN_LENGTH - Suc level"
    and le: "Suc level \<le> DIGIPIN_LENGTH" and m: "DIGIPIN_LENGTH - level = Suc n"
    by simp_all
  note ilat = cell_index_step(4) [OF Suc.prems(2)]
  note ilon = cell_index_step(4) [OF Suc.prems(3)]
  show ?case
    unfolding getDigiPin_ts_loop_step [OF lt Suc.prems(2,3)] Suc.hyps(1) [OF n le ilat ilon] m
    by (simp add: Let_def n)
qed

lemma getDigiPin_indices_step:
  assumes lt: "level < DIGIPIN_LENGTH"
    and ilat: "cell_inv lat level minLat maxLat"
    and ilon: "cell_inv lon level minLon maxLon"
  shows "getDigiPin_indices lat lon level minLat maxLat minLon maxLon =
         (int (3 - cell_index lat minLat maxLat), int (cell_index lon minLon maxLon)) #
         getDigiPin_indices lat lon (Suc level)
           (minLat + (maxLat - minLat) / 4 * real (cell_index lat minLat maxLat))
           (minLat + (maxLat - minLat) / 4 * real (cell_index lat minLat maxLat)
              + (maxLat - minLat) / 4)
           (minLon + (maxLon - minLon) / 4 * real (cell_index lon minLon maxLon))
           (minLon + (maxLon - minLon) / 4 * real (cell_index lon minLon maxLon)
              + (maxLon - minLon) / 4)"
proof -
  define kr where "kr = cell_index lat minLat maxLat"
  define kc where "kc = cell_index lon minLon maxLon"
  note r = cell_index_step [OF ilat, folded kr_def]
  note c = cell_index_step [OF ilon, folded kc_def]
  have row: "min 3 (max 0 (3 - \<lfloor>(lat - minLat) / ((maxLat - minLat) / 4)\<rfloor>)) = int (3 - kr)"
    using r(1,2) by (rule clamp_row(1))
  have col: "min 3 (max 0 \<lfloor>(lon - minLon) / ((maxLon - minLon) / 4)\<rfloor>) = int kc"
    using c(1,2) by (rule clamp_col(1))
  have unrow: "(3::int) - int (3 - kr) = int kr" using r(1,2) by (rule clamp_row(3))
  have nk: "nat (3 - int kr) = 3 - kr" by simp
  show ?thesis
    unfolding kr_def [symmetric] kc_def [symmetric]
    apply (subst getDigiPin_indices.simps)
    apply (simp only: Let_def GRID_SIZE_def row col lt if_True)
    using r(3) c(3)
    apply (simp add: js_index_def grid_dims(1) nk unrow)
    done
qed

lemma getDigiPin_ts_indices_step:
  assumes lt: "level < DIGIPIN_LENGTH"
    and ilat: "cell_inv lat level minLat maxLat"
    and ilon: "cell_inv lon level minLon maxLon"
  shows "getDigiPin_ts_indices lat lon level minLat maxLat minLon maxLon =
         (int (3 - cell_index lat minLat maxLat), int (cell_index lon minLon maxLon)) #
         getDigiPin_ts_indices lat lon (Suc level)
           (minLat + (maxLat - minLat) / 4 * real (cell_index lat minLat maxLat))
           (minLat + (maxLat - minLat) / 4 * real (cell_index lat minLat maxLat)
              + (maxLat - minLat) / 4)
           (minLon + (maxLon - minLon) / 4 * real (cell_index lon minLon maxLon))
           (minLon + (maxLon - minLon) / 4 * real (cell_index lon minLon maxLon)
              + (maxLon - minLon) / 4)"
proof -
  define kr where "kr = cell_index lat minLat maxLat"
  define kc where "kc = cell_index lon minLon maxLon"
  note r = cell_index_step [OF ilat, folded kr_def]
  note c = cell_index_step [OF ilon, folded kc_def]
  have q: "(x::real) * 0.25 = x / 4" for x by simp
  define fr where "fr = \<lfloor>(lat - minLat) / ((maxLat - minLat) / 4)\<rfloor>"
  define fc where "fc = \<lfloor>(lon - minLon) / ((maxLon - minLon) / 4)\<rfloor>"
  have row: "(if 3 - (if fr > 3 then 3 else fr) < 0 then 0 else 3 - (if fr > 3 then 3 else fr))
               = int (3 - kr)"
    using r(1,2) unfolding fr_def by (rule clamp_row(2))
  have col: "(if (if fc > 3 then 3 else fc) < 0 then 0 else (if fc > 3 then 3 else fc)) = int kc"
    using c(1,2) unfolding fc_def by (rule clamp_col(2))
  have unrow: "(3::int) - int (3 - kr) = int kr" using r(1,2) by (rule clamp_row(3))
  have nk: "nat (3 - int kr) = 3 - kr" by simp
  show ?thesis
    unfolding kr_def [symmetric] kc_def [symmetric]
    apply (subst getDigiPin_ts_indices.simps)
    apply (simp only: Let_def q fr_def [symmetric] fc_def [symmetric] row col lt if_True)
    using r(3) c(3)
    apply (simp add: js_index_def grid_dims(1) nk unrow)
    done
qed

lemma indices_in_grid:
  assumes "level \<le> DIGIPIN_LENGTH"
    and "cell_inv lat level minLat maxLat"
    and "cell_inv lon level minLon maxLon"
  shows "length (getDigiPin_indices lat lon level minLat maxLat minLon maxLon)
           = DIGIPIN_LENGTH - level \<and>
         list_all index_ok (getDigiPin_indices lat lon level minLat maxLat minLon maxLon) \<and>
         getDigiPin_ts_indices lat lon level minLat maxLat minLon maxLon
           = getDigiPin_indices lat lon level minLat maxLat minLon maxLon"
  using assms
proof (induction "DIGIPIN_LENGTH - level" arbitrary: level minLat maxLat minLon maxLon)
  case 0
  then show ?case by (simp add: getDigiPin_indices.simps getDigiPin_ts_indices.simps)
next
  case (Suc n)
  then have lt: "level < DIGIPIN_LENGTH" and n: "n = DIGIPIN_LENGTH - Suc level"
    and le: "Suc level \<le> DIGIPIN_LENGTH" and m: "DIGIPIN_LENGTH - level = Suc n"
    by simp_all
  note r = cell_index_step [OF Suc.prems(2)]
  note c = cell_index_step [OF Suc.prems(3)]
  have ok: "index_ok (int (3 - cell_index lat minLat maxLat), int (cell_index lon minLon maxLon))"
    using r(3) c(3) by (simp add: index_ok_def)
  show ?case
    unfolding getDigiPin_indices_step [OF lt Suc.prems(2,3)]
      getDigiPin_ts_indices_step [OF lt Suc.prems(2,3)]
    using Suc.hyps(1) [OF n le r(4) c(4)] ok by (simp add: n m)
qed

lemma cell_symbols_props:
  assumes "cell_inv lat level minLat maxLat" and "cell_inv lon level minLon maxLon"
  shows "length (cell_symbols lat lon n minLat maxLat minLon maxLon) = n \<and>
         list_all is_symbol (cell_symbols lat lon n minLat maxLat minLon maxLon)"
  using assms
proof (induction n arbitrary: level minLat maxLat minLon maxLon)
  case 0
  then show ?case by simp
next
  case (Suc n)
  note r = cell_index_step [OF Suc.prems(1)]
  note c = cell_index_step [OF Suc.prems(2)]
  have "3 - cell_index lat minLat maxLat < 4" by simp
  then have "is_symbol (DIGIPIN_GRID ! (3 - cell_index lat minLat maxLat) !
               cell_index lon minLon maxLon)"
    using c(3) by (simp add: is_symbol_def CHAR_TO_POSITION_grid)
  then show ?case
    using Suc.IH [OF r(4) c(4)] by (simp add: Let_def)
qed

lemma decode_loop_cell_symbols:
  assumes "length pin = DIGIPIN_LENGTH" "i \<le> DIGIPIN_LENGTH"
    and "cell_inv lat i minLat maxLat" and "cell_inv lon i minLon maxLon"
    and "drop i pin = cell_symbols lat lon (DIGIPIN_LENGTH - i) minLat maxLat minLon maxLon"
  shows "\<exists>a b c d. getLatLngFromDigiPin_loop pin i minLat maxLat minLon maxLon = Inr (a, b, c, d) \<and>
           cell_inv lat DIGIPIN_LENGTH a b \<and> cell_inv lon DIGIPIN_LENGTH c d"
  using assms
proof (induction "DIGIPIN_LENGTH - i" arbitrary: i minLat maxLat minLon maxLon)
  case 0
  then show ?case by (simp add: getLatLngFromDigiPin_loop.simps)
next
  case (Suc n)
  then have lt: "i < DIGIPIN_LENGTH" "i < length pin" and n: "n = DIGIPIN_LENGTH - Suc i"
    and le: "Suc i \<le> DIGIPIN_LENGTH" and m: "DIGIPIN_LENGTH - i = Suc n"
    by simp_all
  define kr where "kr = cell_index lat minLat maxLat"
  define kc where "kc = cell_index lon minLon maxLon"
  note r = cell_index_step [OF Suc.prems(3), folded kr_def]
  note c = cell_index_step [OF Suc.prems(4), folded kc_def]
  have d: "drop i pin = pin ! i # drop (Suc i) pin"
    using lt by (simp add: Cons_nth_drop_Suc)
  have sym: "pin ! i = DIGIPIN_GRID ! (3 - kr) ! kc"
    and rest: "drop (Suc i) pin = cell_symbols lat lon (DIGIPIN_LENGTH - Suc i)
           (minLat + (maxLat - minLat) / 4 * real kr)
           (minLat + (maxLat - minLat) / 4 * real kr + (maxLat - minLat) / 4)
           (minLon + (maxLon - minLon) / 4 * real kc)
           (minLon + (maxLon - minLon) / 4 * real kc + (maxLon - minLon) / 4)"
    using Suc.prems(5) unfolding d m by (simp_all add: Let_def kr_def kc_def n)
  have pos: "CHAR_TO_POSITION (pin ! i) = Some (3 - kr, kc)"
    unfolding sym using c(3) by (intro CHAR_TO_POSITION_grid) simp_all
  have e1: "maxLat - (maxLat - minLat) / 4 * real (3 - kr + 1)
              = minLat + (maxLat - minLat) / 4 * real kr"
    using r(3) by (simp add: of_nat_diff field_simps)
  have e2: "maxLat - (maxLat - minLat) / 4 * real (3 - kr)
              = minLat + (maxLat - minLat) / 4 * real kr + (maxLat - minLat) / 4"
    using r(3) by (simp add: of_nat_diff field_simps)
  have e3: "minLon + (maxLon - minLon) / 4 * real (kc + 1)
              = minLon + (maxLon - minLon) / 4 * real kc + (maxLon - minLon) / 4"
    by (simp add: field_simps)
  show ?case
    unfolding decode_loop_step [OF lt pos] e1 e2 e3
    using Suc.hyps(1) [OF n Suc.prems(1) le r(4) c(4) rest] .
qed

section \<open>Encoding inside the bounding box\<close>

lemma cell_inv_start:
  "BOUNDS_minLat \<le> lat \<Longrightarrow> lat \<le> BOUNDS_maxLat \<Longrightarrow> cell_inv lat 0 BOUNDS_minLat BOUNDS_maxLat"
  "BOUNDS_minLon \<le> lon \<Longrightarrow> lon \<le> BOUNDS_maxLon \<Longrightarrow> cell_inv lon 0 BOUNDS_minLon BOUNDS_maxLon"
  by (simp_all add: cell_inv_def BOUNDS_minLat_def BOUNDS_maxLat_def BOUNDS_minLon_def
      BOUNDS_maxLon_def)

lemma js_join_map_Some: "js_join (map Some xs) = xs"
  by (induction xs) (simp_all add: js_join_def)

lemma getDigiPin_in_bounds:
  assumes "in_bounds lat lon"
  shows "getDigiPin lat lon =
           Inr (hyphenate 0 (cell_symbols lat lon DIGIPIN_LENGTH
                  BOUNDS_minLat BOUNDS_maxLat BOUNDS_minLon BOUNDS_maxLon))"
    and "getDigiPin_ts lat lon =
           Inr (hyphenate 0 (cell_symbols lat lon DIGIPIN_LENGTH
                  BOUNDS_minLat BOUNDS_maxLat BOUNDS_minLon BOUNDS_maxLon))"
proof -
  have ilat: "cell_inv lat 0 BOUNDS_minLat BOUNDS_maxLat"
    and ilon: "cell_inv lon 0 BOUNDS_minLon BOUNDS_maxLon"
    using assms by (simp_all add: in_bounds_def cell_inv_start)
  have ok: "\<not> (lat < BOUNDS_minLat \<or> lat > BOUNDS_maxLat)"
    "\<not> (lon < BOUNDS_minLon \<or> lon > BOUNDS_maxLon)"
    using assms by (auto simp: in_bounds_def)
  show "getDigiPin lat lon =
           Inr (hyphenate 0 (cell_symbols lat lon DIGIPIN_LENGTH
                  BOUNDS_minLat BOUNDS_maxLat BOUNDS_minLon BOUNDS_maxLon))"
    unfolding getDigiPin_def
    using ok getDigiPin_loop_correct [OF _ ilat ilon, of "[]"]
    by (simp add: js_join_map_Some)
  show "getDigiPin_ts lat lon =
           Inr (hyphenate 0 (cell_symbols lat lon DIGIPIN_LENGTH
                  BOUNDS_minLat BOUNDS_maxLat BOUNDS_minLon BOUNDS_maxLon))"
    unfolding getDigiPin_ts_def
    using ok getDigiPin_ts_loop_correct [OF _ ilat ilon, of "[]"]
    by (simp add: reserveCapacity_def)
qed

lemma hyphen_no_symbol: "\<not> is_symbol (CHR ''-'')"
  by (simp add: is_symbol_def CHAR_TO_POSITION_unfold)

lemma filter_hyphenate:
  "list_all is_symbol syms \<Longrightarrow> filter (\<lambda>c. c \<noteq> CHR ''-'') (hyphenate level syms) = syms"
proof (induction syms arbitrary: level)
  case Nil
  then show ?case by simp
next
  case (Cons c cs)
  then have "c \<noteq> CHR ''-''" using hyphen_no_symbol by auto
  then show ?case using Cons by simp
qed

lemma length_10_cases:
  assumes "length xs = 10"
  obtains a b c d e f g h i j where "xs = [a, b, c, d, e, f, g, h, i, j]"
  using assms by (auto simp: numeral_eq_Suc length_Suc_conv)

lemma well_formed_hyphenate:
  assumes "length syms = 10" "list_all is_symbol syms"
  shows "well_formed_code (hyphenate 0 syms)"
proof -
  obtain a b c d e f g h i j where s: "syms = [a, b, c, d, e, f, g, h, i, j]"
    using assms(1) by (rule length_10_cases)
  show ?thesis
    using assms(2) unfolding s by (simp add: well_formed_code_def)
qed

lemma round6_close:
  "\<bar>real_of_int (Math_round (x * 1000000)) / 1000000 - x\<bar> \<le> 1 / 2000000"
proof -
  define r where "r = real_of_int \<lfloor>x * 1000000 + 1 / 2\<rfloor>"
  have "r \<le> x * 1000000 + 1 / 2" "x * 1000000 + 1 / 2 < r + 1"
    unfolding r_def by linarith+
  then have "r / 1000000 - x \<le> 1 / 2000000" "- (r / 1000000 - x) \<le> 1 / 2000000"
    by linarith+
  then show ?thesis
    unfolding Math_round_def r_def [symmetric] by (rule abs_leI)
qed

lemma round6_mono_bounds:
  assumes "real_of_int lo / 1000000 \<le> x" "x \<le> real_of_int hi / 1000000"
  shows "real_of_int lo / 1000000 \<le> real_of_int (Math_round (x * 1000000)) / 1000000"
    and "real_of_int (Math_round (x * 1000000)) / 1000000 \<le> real_of_int hi / 1000000"
proof -
  have "real_of_int lo \<le> x * 1000000 + 1 / 2" using assms(1) by (simp add: field_simps)
  then have "lo \<le> Math_round (x * 1000000)" by (simp add: Math_round_def le_floor_iff)
  then show "real_of_int lo / 1000000 \<le> real_of_int (Math_round (x * 1000000)) / 1000000"
    by (simp add: divide_right_mono)
  have "x * 1000000 + 1 / 2 < real_of_int hi + 1" using assms(2) by (simp add: field_simps)
  then have "Math_round (x * 1000000) \<le> hi" by (simp add: Math_round_def floor_le_iff)
  then show "real_of_int (Math_round (x * 1000000)) / 1000000 \<le> real_of_int hi / 1000000"
    by (simp add: divide_right_mono)
qed

lemma roundtrip_rectangle:
  assumes "in_bounds lat lon"
  defines "syms \<equiv> cell_symbols lat lon DIGIPIN_LENGTH
                    BOUNDS_minLat BOUNDS_maxLat BOUNDS_minLon BOUNDS_maxLon"
  shows "\<exists>a b c d.
           getLatLngFromDigiPin_loop syms 0 BOUNDS_minLat BOUNDS_maxLat BOUNDS_minLon BOUNDS_maxLon
             = Inr (a, b, c, d) \<and>
           cell_inv lat DIGIPIN_LENGTH a b \<and> cell_inv lon DIGIPIN_LENGTH c d"
proof -
  have ilat: "cell_inv lat 0 BOUNDS_minLat BOUNDS_maxLat"
    and ilon: "cell_inv lon 0 BOUNDS_minLon BOUNDS_maxLon"
    using assms by (simp_all add: in_bounds_def cell_inv_start)
  have len: "length syms = DIGIPIN_LENGTH"
    using cell_symbols_props [OF ilat ilon] by (simp add: syms_def)
  show ?thesis
    using decode_loop_cell_symbols [OF len _ ilat ilon] by (simp add: syms_def)
qed

lemma centre_close:
  assumes "cell_inv v DIGIPIN_LENGTH a b"
  shows "\<bar>(a + b) * 0.5 - v\<bar> \<le> 9 / 524288"
proof -
  have "a \<le> v" "v \<le> b" "b - a = 9 / 262144"
    using assms by (simp_all add: cell_inv_def DIGIPIN_LENGTH_def)
  then have "(a + b) * 0.5 - v \<le> 9 / 524288" "- ((a + b) * 0.5 - v) \<le> 9 / 524288"
    by (simp_all add: field_simps)
  then show ?thesis by (rule abs_leI)
qed

section \<open>The value of a \<open>toFixed\<close> string\<close>

lemma lt_10_cases:
  "d < (10::nat) \<Longrightarrow> d = 0 \<or> d = 1 \<or> d = 2 \<or> d = 3 \<or> d = 4 \<or> d = 5 \<or> d = 6 \<or> d = 7 \<or> d = 8 \<or> d = 9"
  by arith

lemma digit_char_props:
  assumes "d < 10"
  shows "of_char (digit_char d) - 48 = d" and "is_digit (digit_char d)"
proof -
  have c: "d = 0 \<or> d = 1 \<or> d = 2 \<or> d = 3 \<or> d = 4 \<or> d = 5 \<or> d = 6 \<or> d = 7 \<or> d = 8 \<or> d = 9"
    using assms by (rule lt_10_cases)
  from c show "of_char (digit_char d) - 48 = d"
    by (elim disjE; simp add: digit_char_def)
  from c show "is_digit (digit_char d)"
    by (elim disjE; simp add: digit_char_def is_digit_def)
qed

lemma digits_value_foldl:
  "foldl (\<lambda>a c. 10 * a + (of_char c - 48)) acc ys = acc * 10 ^ length ys + digits_value ys"
proof (induction ys arbitrary: acc)
  case Nil
  then show ?case by (simp add: digits_value_def)
next
  case (Cons y ys)
  have "digits_value (y # ys) = (of_char y - 48) * 10 ^ length ys + digits_value ys"
    unfolding digits_value_def using Cons [of "of_char y - 48"]
    by (simp add: digits_value_def)
  then show ?case
    using Cons [of "10 * acc + (of_char y - 48)"] by (simp add: algebra_simps)
qed

lemma digits_value_append:
  "digits_value (xs @ ys) = digits_value xs * 10 ^ length ys + digits_value ys"
  using digits_value_foldl [of "digits_value xs" ys]
  by (simp add: digits_value_def)

lemma nat_to_string_props:
  "digits_value (nat_to_string n) = n \<and> list_all is_digit (nat_to_string n)"
proof (induction n rule: nat_to_string.induct)
  case (1 n)
  show ?case
  proof (cases "n < 10")
    case True
    then show ?thesis
      by (subst (1 2) nat_to_string.simps) (simp add: digit_char_props digits_value_def)
  next
    case False
    have m: "n mod 10 < 10" by simp
    have "digits_value [digit_char (n mod 10)] = n mod 10"
      using digit_char_props(1) [OF m] by (simp add: digits_value_def)
    then show ?thesis
      using False 1 [OF False] digit_char_props(2) [OF m]
      by (subst (1 2) nat_to_string.simps) (simp add: digits_value_append)
  qed
qed

lemma digits_value_zeros: "digits_value (replicate j (CHR ''0'') @ m) = digits_value m"
proof (induction j)
  case 0
  then show ?case by simp
next
  case (Suc j)
  have "digits_value ([CHR ''0''] @ (replicate j (CHR ''0'') @ m))
          = digits_value (replicate j (CHR ''0'') @ m)"
    unfolding digits_value_append [of "[CHR ''0'']"] by (simp add: digits_value_def)
  then show ?case using Suc by simp
qed

lemma is_digit_plain: "is_digit c \<Longrightarrow> c \<noteq> CHR ''.'' \<and> c \<noteq> CHR ''-''"
  by (auto simp: is_digit_def)

lemma decimal_value_unsigned:
  assumes "take 1 t \<noteq> ''-''"
  shows "decimal_value t =
           real (digits_value (takeWhile (\<lambda>c. c \<noteq> CHR ''.'') t)) +
           real (digits_value (drop 1 (dropWhile (\<lambda>c. c \<noteq> CHR ''.'') t))) /
             10 ^ length (drop 1 (dropWhile (\<lambda>c. c \<noteq> CHR ''.'') t))"
  unfolding decimal_value_def Let_def using assms by (simp only: if_False)

lemma decimal_value_point:
  assumes "list_all is_digit ip" "ip \<noteq> []"
  shows "decimal_value (ip @ ''.'' @ fp)
           = real (digits_value ip) + real (digits_value fp) / 10 ^ length fp"
proof -
  have nd: "\<And>c. c \<in> set ip \<Longrightarrow> c \<noteq> CHR ''.''" "\<And>c. c \<in> set ip \<Longrightarrow> c \<noteq> CHR ''-''"
    using assms(1) is_digit_plain by (auto simp: list_all_iff)
  obtain c cs where ip: "ip = c # cs" using assms(2) by (cases ip) auto
  have "c \<noteq> CHR ''-''" using nd(2) [of c] by (simp add: ip)
  then have neg: "take 1 (ip @ ''.'' @ fp) \<noteq> ''-''" by (simp add: ip)
  have tw: "takeWhile (\<lambda>c. c \<noteq> CHR ''.'') (ip @ ''.'' @ fp) = ip"
    using nd(1) by (simp add: takeWhile_append2)
  have dw: "drop 1 (dropWhile (\<lambda>c. c \<noteq> CHR ''.'') (ip @ ''.'' @ fp)) = fp"
    using nd(1) by (simp add: dropWhile_append2)
  show ?thesis
    unfolding decimal_value_unsigned [OF neg] tw dw ..
qed

lemma toFixed_value:
  assumes "0 \<le> x"
  shows "decimal_value (toFixed x 6) = real_of_int \<lfloor>x * 10 ^ 6 + 1 / 2\<rfloor> / 10 ^ 6"
proof -
  define n where "n = nat \<lfloor>x * 10 ^ 6 + 1 / 2\<rfloor>"
  define m where "m = nat_to_string n"
  define m' where "m' = (if length m \<le> 6 then replicate (6 + 1 - length m) (CHR ''0'') @ m else m)"
  define k where "k = length m'"
  have nn: "0 \<le> \<lfloor>x * 10 ^ 6 + 1 / 2\<rfloor>" using assms by simp
  have k7: "7 \<le> k" by (simp add: k_def m'_def)
  have dv: "digits_value m' = n"
    using nat_to_string_props [of n] by (simp add: m'_def m_def digits_value_zeros)
  have dg: "list_all is_digit m'"
    using nat_to_string_props [of n] by (simp add: m'_def m_def is_digit_def list_all_iff)
  have tf: "toFixed x 6 = take (k - 6) m' @ ''.'' @ drop (k - 6) m'"
    using assms by (simp add: toFixed_def Let_def n_def m_def m'_def k_def)
  have ip: "list_all is_digit (take (k - 6) m')" "take (k - 6) m' \<noteq> []"
    using dg k7 by (auto simp: list_all_iff k_def dest: in_set_takeD)
  have lf: "length (drop (k - 6) m') = 6" using k7 by (simp add: k_def)
  have "n = digits_value (take (k - 6) m' @ drop (k - 6) m')" by (simp add: dv)
  also have "\<dots> = digits_value (take (k - 6) m') * 10 ^ 6 + digits_value (drop (k - 6) m')"
    unfolding digits_value_append lf ..
  finally have split: "real n = real (digits_value (take (k - 6) m')) * 10 ^ 6
                         + real (digits_value (drop (k - 6) m'))"
    by (metis of_nat_add of_nat_mult of_nat_numeral of_nat_power)
  have "decimal_value (toFixed x 6)
          = real (digits_value (take (k - 6) m')) + real (digits_value (drop (k - 6) m')) / 10 ^ 6"
    unfolding tf decimal_value_point [OF ip] lf ..
  also have "\<dots> = real n / 10 ^ 6" unfolding split by (simp add: field_simps)
  also have "real n = real_of_int \<lfloor>x * 10 ^ 6 + 1 / 2\<rfloor>" using nn by (simp add: n_def)
  finally show ?thesis .
qed

section \<open>The decoder's rectangle\<close>

lemma sub_cell_nested:
  fixes mn mx :: real
  assumes "mn < mx" "k < 4"
  shows "mn \<le> mx - (mx - mn) / 4 * real (k + 1)"
    and "mx - (mx - mn) / 4 * real (k + 1) < mx - (mx - mn) / 4 * real k"
    and "mx - (mx - mn) / 4 * real k \<le> mx"
    and "mn \<le> mn + (mx - mn) / 4 * real k"
    and "mn + (mx - mn) / 4 * real k < mn + (mx - mn) / 4 * real (k + 1)"
    and "mn + (mx - mn) / 4 * real (k + 1) \<le> mx"
proof -
  define d where "d = (mx - mn) / 4"
  have dpos: "0 < d" using assms(1) by (simp add: d_def)
  have w: "mx - mn = d * 4" by (simp add: d_def)
  have "real (k + 1) \<le> 4" using assms(2) by simp
  then have u: "d * real (k + 1) \<le> d * 4" using dpos by (simp only: mult_le_cancel_left_pos)
  have s: "d * real (k + 1) = d * real k + d" by (simp add: algebra_simps)
  have z: "0 \<le> d * real k" using dpos by simp
  show "mn \<le> mx - (mx - mn) / 4 * real (k + 1)" using u w unfolding d_def [symmetric] by linarith
  show "mx - (mx - mn) / 4 * real (k + 1) < mx - (mx - mn) / 4 * real k"
    using s dpos unfolding d_def [symmetric] by linarith
  show "mx - (mx - mn) / 4 * real k \<le> mx" using z unfolding d_def [symmetric] by linarith
  show "mn \<le> mn + (mx - mn) / 4 * real k" using z unfolding d_def [symmetric] by linarith
  show "mn + (mx - mn) / 4 * real k < mn + (mx - mn) / 4 * real (k + 1)"
    using s dpos unfolding d_def [symmetric] by linarith
  show "mn + (mx - mn) / 4 * real (k + 1) \<le> mx" using u w unfolding d_def [symmetric] by linarith
qed

lemma decode_loop_nested:
  assumes "length pin = DIGIPIN_LENGTH" "i \<le> DIGIPIN_LENGTH"
    and "minLat < maxLat" "minLon < maxLon"
    and "getLatLngFromDigiPin_loop pin i minLat maxLat minLon maxLon = Inr (a, b, c, d)"
  shows "minLat \<le> a \<and> a < b \<and> b \<le> maxLat \<and> minLon \<le> c \<and> c < d \<and> d \<le> maxLon"
  using assms
proof (induction "DIGIPIN_LENGTH - i" arbitrary: i minLat maxLat minLon maxLon)
  case 0
  then show ?case by (simp add: getLatLngFromDigiPin_loop.simps)
next
  case (Suc n)
  then have lt: "i < DIGIPIN_LENGTH" "i < length pin" and n: "n = DIGIPIN_LENGTH - Suc i"
    and le: "Suc i \<le> DIGIPIN_LENGTH"
    by simp_all
  have "is_symbol (pin ! i)"
    using decode_loop_bad [OF lt, of minLat maxLat minLon maxLon] Suc.prems(5) by auto
  then obtain r k where rk: "CHAR_TO_POSITION (pin ! i) = Some (r, k)"
    by (auto simp: is_symbol_def)
  then have r4: "r < 4" and k4: "k < 4" using CHAR_TO_POSITION_Some by blast+
  note la = sub_cell_nested(1,2,3) [OF Suc.prems(3) r4]
  note lo = sub_cell_nested(4,5,6) [OF Suc.prems(4) k4]
  have "maxLat - (maxLat - minLat) / 4 * real (r + 1) \<le> a \<and> a < b \<and>
        b \<le> maxLat - (maxLat - minLat) / 4 * real r \<and>
        minLon + (maxLon - minLon) / 4 * real k \<le> c \<and> c < d \<and>
        d \<le> minLon + (maxLon - minLon) / 4 * real (k + 1)"
    using Suc.prems(5) unfolding decode_loop_step [OF lt rk]
    by (rule Suc.hyps(1) [OF n Suc.prems(1) le la(2) lo(2)])
  then show ?case using la lo by linarith
qed

lemma box_nonempty: "BOUNDS_minLat < BOUNDS_maxLat" "BOUNDS_minLon < BOUNDS_maxLon"
  by (simp_all add: BOUNDS_minLat_def BOUNDS_maxLat_def BOUNDS_minLon_def BOUNDS_maxLon_def)

lemma decode_valid_results:
  assumes "valid_code digiPin"
  shows "\<exists>a b c d.
           getLatLngFromDigiPin_loop (filter (\<lambda>c. c \<noteq> CHR ''-'') digiPin) 0
             BOUNDS_minLat BOUNDS_maxLat BOUNDS_minLon BOUNDS_maxLon = Inr (a, b, c, d) \<and>
           getLatLngFromDigiPin digiPin =
             Inr \<lparr>latitude = JString (toFixed ((a + b) * 0.5) 6),
                  longitude = JString (toFixed ((c + d) * 0.5) 6)\<rparr> \<and>
           getLatLngFromDigiPin_ts digiPin =
             Inr \<lparr>latitude = JNumber (round6 ((a + b) * 0.5)),
                  longitude = JNumber (round6 ((c + d) * 0.5))\<rparr> \<and>
           BOUNDS_minLat \<le> a \<and> a < b \<and> b \<le> BOUNDS_maxLat \<and>
           BOUNDS_minLon \<le> c \<and> c < d \<and> d \<le> BOUNDS_maxLon"
proof -
  define pin where "pin = filter (\<lambda>c. c \<noteq> CHR ''-'') digiPin"
  have len: "length pin = DIGIPIN_LENGTH" and sy: "list_all is_symbol (drop 0 pin)"
    using assms by (simp_all add: valid_code_def pin_def DIGIPIN_LENGTH_def)
  obtain rect where "getLatLngFromDigiPin_loop pin 0
      BOUNDS_minLat BOUNDS_maxLat BOUNDS_minLon BOUNDS_maxLon = Inr rect"
    using decode_loop_control [OF len, of 0] sy by blast
  then obtain a b c d where l: "getLatLngFromDigiPin_loop pin 0
      BOUNDS_minLat BOUNDS_maxLat BOUNDS_minLon BOUNDS_maxLon = Inr (a, b, c, d)"
    by (cases rect) auto
  note nest = decode_loop_nested [OF len _ box_nonempty l]
  have "getLatLngFromDigiPin digiPin =
             Inr \<lparr>latitude = JString (toFixed ((a + b) * 0.5) 6),
                  longitude = JString (toFixed ((c + d) * 0.5) 6)\<rparr>"
    using len l by (simp add: getLatLngFromDigiPin_def pin_def [symmetric])
  moreover have "getLatLngFromDigiPin_ts digiPin =
             Inr \<lparr>latitude = JNumber (round6 ((a + b) * 0.5)),
                  longitude = JNumber (round6 ((c + d) * 0.5))\<rparr>"
    using len l
    by (simp add: getLatLngFromDigiPin_ts_def strip_hyphens_ts_eq pin_def [symmetric]
        decode_loops_agree round6_def)
  ultimately show ?thesis using l nest unfolding pin_def by blast
qed

section \<open>Range errors on finite numbers\<close>

lemma in_bounds_iff:
  "in_bounds lat lon \<longleftrightarrow> 2.5 \<le> lat \<and> lat \<le> 38.5 \<and> 63.5 \<le> lon \<and> lon \<le> 99.5"
  by (simp add: in_bounds_def BOUNDS_minLat_def BOUNDS_maxLat_def BOUNDS_minLon_def
      BOUNDS_maxLon_def)

lemma encode_in_bounds_code:
  assumes "in_bounds lat lon"
  shows "\<exists>code. getDigiPin lat lon = Inr code \<and> getDigiPin_ts lat lon = Inr code \<and>
           well_formed_code code \<and>
           code = hyphenate 0 (cell_symbols lat lon DIGIPIN_LENGTH
                    BOUNDS_minLat BOUNDS_maxLat BOUNDS_minLon BOUNDS_maxLon)"
proof -
  have ilat: "cell_inv lat 0 BOUNDS_minLat BOUNDS_maxLat"
    and ilon: "cell_inv lon 0 BOUNDS_minLon BOUNDS_maxLon"
    using assms by (simp_all add: in_bounds_def cell_inv_start)
  have "well_formed_code (hyphenate 0 (cell_symbols lat lon DIGIPIN_LENGTH
                    BOUNDS_minLat BOUNDS_maxLat BOUNDS_minLon BOUNDS_maxLon))"
    using cell_symbols_props [OF ilat ilon, of DIGIPIN_LENGTH]
    by (intro well_formed_hyphenate) (simp_all add: DIGIPIN_LENGTH_def)
  then show ?thesis using getDigiPin_in_bounds [OF assms] by simp
qed

lemma encode_out_of_bounds:
  "lat < 2.5 \<or> 38.5 < lat \<Longrightarrow> getDigiPin lat lon = Inl (OutOfRange Latitude lat 2.5 38.5)"
  "lat < 2.5 \<or> 38.5 < lat \<Longrightarrow> getDigiPin_ts lat lon = Inl (OutOfRange Latitude lat 2.5 38.5)"
  "2.5 \<le> lat \<and> lat \<le> 38.5 \<and> (lon < 63.5 \<or> 99.5 < lon) \<Longrightarrow>
     getDigiPin lat lon = Inl (OutOfRange Longitude lon 63.5 99.5)"
  "2.5 \<le> lat \<and> lat \<le> 38.5 \<and> (lon < 63.5 \<or> 99.5 < lon) \<Longrightarrow>
     getDigiPin_ts lat lon = Inl (OutOfRange Longitude lon 63.5 99.5)"
  by (auto simp: getDigiPin_def getDigiPin_ts_def BOUNDS_minLat_def BOUNDS_maxLat_def
      BOUNDS_minLon_def BOUNDS_maxLon_def)

text \<open>
  On finite numbers both encoders fail exactly when a coordinate is out of range: a
  latitude below 2.5 or above 38.5 gives the latitude error whatever the longitude is
  (the latitude is checked first); with the latitude in range, a longitude below 63.5 or
  above 99.5 gives the longitude error; with both in range the encoder returns a code.
\<close>

lemma encode_out_of_range_finite:
  "(lat < 2.5 \<or> 38.5 < lat \<longrightarrow>
      getDigiPin lat lon = Inl (OutOfRange Latitude lat 2.5 38.5) \<and>
      getDigiPin_ts lat lon = Inl (OutOfRange Latitude lat 2.5 38.5)) \<and>
   (2.5 \<le> lat \<and> lat \<le> 38.5 \<and> (lon < 63.5 \<or> 99.5 < lon) \<longrightarrow>
      getDigiPin lat lon = Inl (OutOfRange Longitude lon 63.5 99.5) \<and>
      getDigiPin_ts lat lon = Inl (OutOfRange Longitude lon 63.5 99.5)) \<and>
   (2.5 \<le> lat \<and> lat \<le> 38.5 \<and> 63.5 \<le> lon \<and> lon \<le> 99.5 \<longrightarrow>
      (\<exists>code. getDigiPin lat lon = Inr code \<and> getDigiPin_ts lat lon = Inr code))"
proof (intro conjI impI)
  assume "2.5 \<le> lat \<and> lat \<le> 38.5 \<and> 63.5 \<le> lon \<and> lon \<le> 99.5"
  then have "in_bounds lat lon" by (simp add: in_bounds_iff)
  then show "\<exists>code. getDigiPin lat lon = Inr code \<and> getDigiPin_ts lat lon = Inr code"
    using encode_in_bounds_code by blast
qed (simp_all add: encode_out_of_bounds)

lemma encode_out_of_range_examples:
  "getDigiPin 40 72.822191 = Inl (OutOfRange Latitude 40 2.5 38.5) \<and>
   getDigiPin_ts 40 72.822191 = Inl (OutOfRange Latitude 40 2.5 38.5) \<and>
   getDigiPin 18.968557 100 = Inl (OutOfRange Longitude 100 63.5 99.5) \<and>
   getDigiPin_ts 18.968557 100 = Inl (OutOfRange Longitude 100 63.5 99.5) \<and>
   (\<exists>code. getDigiPin 18.968557 72.822191 = Inr code \<and>
           getDigiPin_ts 18.968557 72.822191 = Inr code)"
  using encode_out_of_range_finite [of 40 "72.822191"] encode_out_of_range_finite [of "18.968557" 100]
    encode_out_of_range_finite [of "18.968557" "72.822191"]
  by simp

section \<open>Numbers that are not finite\<close>

text \<open>
  On finite coordinates the encoders on numbers take the same steps as the encoders on
  reals; the infinities fail the range tests like any number out of range.
\<close>

lemma js_index_num_int: "js_index_num xs (Num (of_int z)) = js_index xs z"
  by (simp add: js_index_num_def)

lemma clamp_num:
  "Math_min (Num 3) (Math_max (Num 0) (Num (of_int z))) = Num (of_int (min 3 (max 0 z)))"
  by (simp add: Math_min_def Math_max_def min_def max_def)

lemma clamp_ts_num:
  "(if js_less (Num 3) (Num (of_int z)) then Num 3 else Num (of_int z))
     = Num (of_int (if z > 3 then 3 else z))"
  "(if js_less (Num (of_int z)) (Num 0) then Num 0 else Num (of_int z))
     = Num (of_int (if z < 0 then 0 else z))"
  by simp_all

lemma num_sub_int: "js_minus (Num 3) (Num (of_int z)) = Num (of_int (3 - z))"
  by (simp add: js_minus_def)

lemma getDigiPin_num_loop_step:
  assumes lt: "level < DIGIPIN_LENGTH"
    and ilat: "cell_inv lat level minLat maxLat"
    and ilon: "cell_inv lon level minLon maxLon"
  shows "getDigiPin_num_loop (Num lat) (Num lon) level
           (Num minLat) (Num maxLat) (Num minLon) (Num maxLon) result =
         getDigiPin_num_loop (Num lat) (Num lon) (Suc level)
           (Num (minLat + (maxLat - minLat) / 4 * real (cell_index lat minLat maxLat)))
           (Num (minLat + (maxLat - minLat) / 4 * real (cell_index lat minLat maxLat)
              + (maxLat - minLat) / 4))
           (Num (minLon + (maxLon - minLon) / 4 * real (cell_index lon minLon maxLon)))
           (Num (minLon + (maxLon - minLon) / 4 * real (cell_index lon minLon maxLon)
              + (maxLon - minLon) / 4))
           (result @ map Some (hyphenate level
              [DIGIPIN_GRID ! (3 - cell_index lat minLat maxLat) ! cell_index lon minLon maxLon]))"
proof -
  define kr where "kr = cell_index lat minLat maxLat"
  define kc where "kc = cell_index lon minLon maxLon"
  note r = cell_index_step [OF ilat, folded kr_def]
  note c = cell_index_step [OF ilon, folded kc_def]
  have nz: "(maxLat - minLat) / 4 \<noteq> 0" "(maxLon - minLon) / 4 \<noteq> 0"
    using ilat ilon by (simp_all add: cell_inv_def)
  have dlat: "js_divide (js_minus (Num maxLat) (Num minLat)) (Num GRID_SIZE)
                = Num ((maxLat - minLat) / 4)"
    and dlon: "js_divide (js_minus (Num maxLon) (Num minLon)) (Num GRID_SIZE)
                = Num ((maxLon - minLon) / 4)"
    by (simp_all add: js_minus_def GRID_SIZE_def)
  have qlat: "Math_floor (js_divide (js_minus (Num lat) (Num minLat)) (Num ((maxLat - minLat) / 4)))
                = Num (of_int \<lfloor>(lat - minLat) / ((maxLat - minLat) / 4)\<rfloor>)"
    and qlon: "Math_floor (js_divide (js_minus (Num lon) (Num minLon)) (Num ((maxLon - minLon) / 4)))
                = Num (of_int \<lfloor>(lon - minLon) / ((maxLon - minLon) / 4)\<rfloor>)"
    using nz by (simp_all add: js_minus_def)
  have row: "min 3 (max 0 (3 - \<lfloor>(lat - minLat) / ((maxLat - minLat) / 4)\<rfloor>)) = int (3 - kr)"
    using r(1,2) by (rule clamp_row(1))
  have col: "min 3 (max 0 \<lfloor>(lon - minLon) / ((maxLon - minLon) / 4)\<rfloor>) = int kc"
    using c(1,2) by (rule clamp_col(1))
  have unrow: "(3::int) - int (3 - kr) = int kr" using r(1,2) by (rule clamp_row(3))
  have len: "length (DIGIPIN_GRID ! (3 - kr)) = 4" by (rule grid_dims) simp
  have nk: "nat (3 - int kr) = 3 - kr" by simp
  show ?thesis
    unfolding kr_def [symmetric] kc_def [symmetric]
    apply (subst getDigiPin_num_loop.simps)
    apply (simp only: Let_def dlat dlon qlat qlon num_sub_int clamp_num row col
        js_index_num_int unrow lt if_True)
    using r(3) c(3)
    apply (simp add: js_index_def grid_dims(1) len nk HYPHEN_POSITIONS_def)
    done
qed

lemma getDigiPin_ts_num_loop_step:
  assumes lt: "level < DIGIPIN_LENGTH"
    and ilat: "cell_inv lat level minLat maxLat"
    and ilon: "cell_inv lon level minLon maxLon"
  shows "getDigiPin_ts_num_loop (Num lat) (Num lon) level
           (Num minLat) (Num maxLat) (Num minLon) (Num maxLon) result =
         getDigiPin_ts_num_loop (Num lat) (Num lon) (Suc level)
           (Num (minLat + (maxLat - minLat) / 4 * real (cell_index lat minLat maxLat)))
           (Num (minLat + (maxLat - minLat) / 4 * real (cell_index lat minLat maxLat)
              + (maxLat - minLat) / 4))
           (Num (minLon + (maxLon - minLon) / 4 * real (cell_index lon minLon maxLon)))
           (Num (minLon + (maxLon - minLon) / 4 * real (cell_index lon minLon maxLon)
              + (maxLon - minLon) / 4))
           (result @ hyphenate level
              [DIGIPIN_GRID ! (3 - cell_index lat minLat maxLat) ! cell_index lon minLon maxLon])"
proof -
  define kr where "kr = cell_index lat minLat maxLat"
  define kc where "kc = cell_index lon minLon maxLon"
  note r = cell_index_step [OF ilat, folded kr_def]
  note c = cell_index_step [OF ilon, folded kc_def]
  have nz: "(maxLat - minLat) / 4 \<noteq> 0" "(maxLon - minLon) / 4 \<noteq> 0"
    using ilat ilon by (simp_all add: cell_inv_def)
  have dlat: "js_times (js_minus (Num maxLat) (Num minLat)) (Num 0.25)
                = Num ((maxLat - minLat) / 4)"
    and dlon: "js_times (js_minus (Num maxLon) (Num minLon)) (Num 0.25)
                = Num ((maxLon - minLon) / 4)"
    by (simp_all add: js_minus_def)
  define fr where "fr = \<lfloor>(lat - minLat) / ((maxLat - minLat) / 4)\<rfloor>"
  define fc where "fc = \<lfloor>(lon - minLon) / ((maxLon - minLon) / 4)\<rfloor>"
  have qlat: "Math_floor (js_divide (js_minus (Num lat) (Num minLat)) (Num ((maxLat - minLat) / 4)))
                = Num (of_int fr)"
    and qlon: "Math_floor (js_divide (js_minus (Num lon) (Num minLon)) (Num ((maxLon - minLon) / 4)))
                = Num (of_int fc)"
    using nz by (simp_all add: js_minus_def fr_def fc_def)
  have r1: "(if js_less (Num 3) (Num (of_int fr)) then Num 3 else Num (of_int fr))
              = Num (of_int (if fr > 3 then 3 else fr))"
    by (rule clamp_ts_num(1))
  have row: "(if js_less (Num (of_int (3 - (if fr > 3 then 3 else fr)))) (Num 0) then Num 0
              else Num (of_int (3 - (if fr > 3 then 3 else fr)))) = Num (of_int (int (3 - kr)))"
    unfolding clamp_ts_num(2) using clamp_row(2) [OF r(1,2) [unfolded fr_def [symmetric]]]
    by simp
  have c1: "(if js_less (Num 3) (Num (of_int fc)) then Num 3 else Num (of_int fc))
              = Num (of_int (if fc > 3 then 3 else fc))"
    by (rule clamp_ts_num(1))
  have col: "(if js_less (Num (of_int (if fc > 3 then 3 else fc))) (Num 0) then Num 0
              else Num (of_int (if fc > 3 then 3 else fc))) = Num (of_int (int kc))"
    unfolding clamp_ts_num(2) using clamp_col(2) [OF c(1,2) [unfolded fc_def [symmetric]]]
    by simp
  have unrow: "(3::int) - int (3 - kr) = int kr" using r(1,2) by (rule clamp_row(3))
  have len: "length (DIGIPIN_GRID ! (3 - kr)) = 4" by (rule grid_dims) simp
  have nk: "nat (3 - int kr) = 3 - kr" by simp
  show ?thesis
    unfolding kr_def [symmetric] kc_def [symmetric]
    apply (subst getDigiPin_ts_num_loop.simps)
    apply (simp only: Let_def dlat dlon qlat qlon r1 c1 num_sub_int row col
        js_index_num_int unrow lt if_True)
    using r(3) c(3)
    apply (simp add: js_index_def grid_dims(1) len nk)
    done
qed

lemma getDigiPin_num_loop_agrees:
  assumes "level \<le> DIGIPIN_LENGTH"
    and "cell_inv lat level minLat maxLat"
    and "cell_inv lon level minLon maxLon"
  shows "getDigiPin_num_loop (Num lat) (Num lon) level
           (Num minLat) (Num maxLat) (Num minLon) (Num maxLon) result =
         Inr (result @ map Some (hyphenate level
               (cell_symbols lat lon (DIGIPIN_LENGTH - level) minLat maxLat minLon maxLon)))"
  using assms
proof (induction "DIGIPIN_LENGTH - level" arbitrary: level minLat maxLat minLon maxLon result)
  case 0
  then show ?case by (simp add: getDigiPin_num_loop.simps)
next
  case (Suc n)
  then have lt: "level < DIGIPIN_LENGTH" and n: "n = DIGIPIN_LENGTH - Suc level"
    and le: "Suc level \<le> DIGIPIN_LENGTH" and m: "DIGIPIN_LENGTH - level = Suc n"
    by simp_all
  note ilat = cell_index_step(4) [OF Suc.prems(2)]
  note ilon = cell_index_step(4) [OF Suc.prems(3)]
  show ?case
    unfolding getDigiPin_num_loop_step [OF lt Suc.prems(2,3)] Suc.hyps(1) [OF n le ilat ilon] m
    by (simp add: Let_def n)
qed

lemma getDigiPin_ts_num_loop_agrees:
  assumes "level \<le> DIGIPIN_LENGTH"
    and "cell_inv lat level minLat maxLat"
    and "cell_inv lon level minLon maxLon"
  shows "getDigiPin_ts_num_loop (Num lat) (Num lon) level
           (Num minLat) (Num maxLat) (Num minLon) (Num maxLon) result =
         Inr (result @ hyphenate level
               (cell_symbols lat lon (DIGIPIN_LENGTH - level) minLat maxLat minLon maxLon))"
  using assms
proof (induction "DIGIPIN_LENGTH - level" arbitrary: level minLat maxLat minLon maxLon result)
  case 0
  then show ?case by (simp add: getDigiPin_ts_num_loop.simps)
next
  case (Suc n)
  then have lt: "level < DIGIPIN_LENGTH" and n: "n = DIGIPIN_LENGTH - Suc level"
    and le: "Suc level \<le> DIGIPIN_LENGTH" and m: "DIGIPIN_LENGTH - level = Suc n"
    by simp_all
  note ilat = cell_index_step(4) [OF Suc.prems(2)]
  note ilon = cell_index_step(4) [OF Suc.prems(3)]
  show ?case
    unfolding getDigiPin_ts_num_loop_step [OF lt Suc.prems(2,3)] Suc.hyps(1) [OF n le ilat ilon] m
    by (simp add: Let_def n)
qed

lemma getDigiPin_num_finite:
  assumes "in_bounds lat lon"
  shows "getDigiPin_num (Num lat) (Num lon) = getDigiPin_ts_num (Num lat) (Num lon)"
    and "\<exists>code. getDigiPin_num (Num lat) (Num lon) = Inr code \<and> getDigiPin lat lon = Inr code \<and>
           getDigiPin_ts lat lon = Inr code"
proof -
  have ilat: "cell_inv lat 0 BOUNDS_minLat BOUNDS_maxLat"
    and ilon: "cell_inv lon 0 BOUNDS_minLon BOUNDS_maxLon"
    using assms by (simp_all add: in_bounds_def cell_inv_start)
  have ok: "\<not> (lat < BOUNDS_minLat \<or> BOUNDS_maxLat < lat)"
    "\<not> (lon < BOUNDS_minLon \<or> BOUNDS_maxLon < lon)"
    using assms by (auto simp: in_bounds_def)
  have a: "getDigiPin_num (Num lat) (Num lon) =
           Inr (hyphenate 0 (cell_symbols lat lon DIGIPIN_LENGTH
                  BOUNDS_minLat BOUNDS_maxLat BOUNDS_minLon BOUNDS_maxLon))"
    unfolding getDigiPin_num_def
    using ok getDigiPin_num_loop_agrees [OF _ ilat ilon, of "[]"]
    by (simp add: js_join_map_Some)
  have b: "getDigiPin_ts_num (Num lat) (Num lon) =
           Inr (hyphenate 0 (cell_symbols lat lon DIGIPIN_LENGTH
                  BOUNDS_minLat BOUNDS_maxLat BOUNDS_minLon BOUNDS_maxLon))"
    unfolding getDigiPin_ts_num_def
    using ok getDigiPin_ts_num_loop_agrees [OF _ ilat ilon, of "[]"]
    by (simp add: reserveCapacity_def)
  show "getDigiPin_num (Num lat) (Num lon) = getDigiPin_ts_num (Num lat) (Num lon)"
    using a b by simp
  show "\<exists>code. getDigiPin_num (Num lat) (Num lon) = Inr code \<and> getDigiPin lat lon = Inr code \<and>
           getDigiPin_ts lat lon = Inr code"
    using a getDigiPin_in_bounds [OF assms] by simp
qed

lemma getDigiPin_num_out_of_range:
  "js_less lat (Num 2.5) \<or> js_less (Num 38.5) lat \<Longrightarrow>
     getDigiPin_num lat lon = Inl (OutOfRangeNum Latitude lat 2.5 38.5) \<and>
     getDigiPin_ts_num lat lon = Inl (OutOfRangeNum Latitude lat 2.5 38.5)"
  "\<not> (js_less lat (Num 2.5) \<or> js_less (Num 38.5) lat) \<Longrightarrow>
   js_less lon (Num 63.5) \<or> js_less (Num 99.5) lon \<Longrightarrow>
     getDigiPin_num lat lon = Inl (OutOfRangeNum Longitude lon 63.5 99.5) \<and>
     getDigiPin_ts_num lat lon = Inl (OutOfRangeNum Longitude lon 63.5 99.5)"
  by (auto simp: getDigiPin_num_def getDigiPin_ts_num_def BOUNDS_minLat_def BOUNDS_maxLat_def
      BOUNDS_minLon_def BOUNDS_maxLon_def)

text \<open>The runs on \<open>NaN\<close>, which passes both range tests, every comparison being false.\<close>

lemmas num_eval =
  constants Let_def js_index_num_def js_index_def DIGIPIN_GRID_def js_join_def
  Math_max_def Math_min_def js_minus_def reserveCapacity_def

lemma encode_num_nan_lon: "getDigiPin_num (Num 18.968557) NaN = Inr ''--''"
  by (simp add: getDigiPin_num_def getDigiPin_num_loop.simps num_eval)

lemma encode_num_nan_lat: "getDigiPin_num NaN (Num 72.822191) = Inl TypeErrorNum"
  by (simp add: getDigiPin_num_def getDigiPin_num_loop.simps num_eval)

lemma encode_ts_num_nan_lon:
  "getDigiPin_ts_num (Num 18.968557) NaN =
     Inr ''undefinedundefinedundefined-undefinedundefinedundefined-undefinedundefinedundefinedundefined''"
  by (simp add: getDigiPin_ts_num_def getDigiPin_ts_num_loop.simps num_eval)

lemma encode_ts_num_nan_lat: "getDigiPin_ts_num NaN (Num 72.822191) = Inl TypeErrorNum"
  by (simp add: getDigiPin_ts_num_def getDigiPin_ts_num_loop.simps num_eval)

lemma encode_num_example: "getDigiPin_num (Num 18.968557) (Num 72.822191) = Inr ''4FK-5MK-9PPK''"
  by (simp add: getDigiPin_num_def getDigiPin_num_loop.simps num_eval)

text \<open>
  C5: the encoder is to fail exactly when a coordinate is outside its interval, with an
  error that names the coordinate, its value and the interval. It does so on every
  number but \<open>NaN\<close>, which is not inside either interval and which the two range tests
  let through. With the longitude \<open>NaN\<close> the encoder does not fail: \<^verbatim>\<open>index.ts\<close>
  returns the two hyphens alone and the typed copy returns the text \<^verbatim>\<open>undefined\<close> ten
  times in the three groups. With the latitude \<open>NaN\<close> the failure is the
  \<open>TypeError\<close> of the table access, which names no coordinate and no interval.
\<close>

theorem encode_nan_not_rejected:
  "getDigiPin_num (Num 18.968557) NaN = Inr ''--'' \<and>
   getDigiPin_ts_num (Num 18.968557) NaN =
     Inr ''undefinedundefinedundefined-undefinedundefinedundefined-undefinedundefinedundefinedundefined'' \<and>
   getDigiPin_num NaN (Num 72.822191) = Inl TypeErrorNum \<and>
   getDigiPin_ts_num NaN (Num 72.822191) = Inl TypeErrorNum"
  using encode_num_nan_lon encode_ts_num_nan_lon encode_num_nan_lat encode_ts_num_nan_lat
  by (intro conjI)

section \<open>Totality and the round trip\<close>

text \<open>
  C9: for every point of the bounding box, at each of the ten levels the row and the
  column with which the loop indexes the table lie in \<open>0..3\<close>, in \<^verbatim>\<open>index.ts\<close> and
  in the typed copy, which clamps the row from above before the inversion and from below
  after it (and so relies on the coordinate never lying below the working interval).
  Hence the table access is always defined and the encoder never fails after the
  validation: both copies return the same well-formed code of ten symbols.
\<close>

theorem encode_never_fails:
  assumes "2.5 \<le> lat" "lat \<le> 38.5" "63.5 \<le> lon" "lon \<le> 99.5"
  shows "length (getDigiPin_indices lat lon 0
                   BOUNDS_minLat BOUNDS_maxLat BOUNDS_minLon BOUNDS_maxLon) = 10 \<and>
         list_all index_ok (getDigiPin_indices lat lon 0
                   BOUNDS_minLat BOUNDS_maxLat BOUNDS_minLon BOUNDS_maxLon) \<and>
         length (getDigiPin_ts_indices lat lon 0
                   BOUNDS_minLat BOUNDS_maxLat BOUNDS_minLon BOUNDS_maxLon) = 10 \<and>
         list_all index_ok (getDigiPin_ts_indices lat lon 0
                   BOUNDS_minLat BOUNDS_maxLat BOUNDS_minLon BOUNDS_maxLon) \<and>
         (\<exists>code. getDigiPin lat lon = Inr code \<and> getDigiPin_ts lat lon = Inr code \<and>
            well_formed_code code)"
proof -
  have ib: "in_bounds lat lon" using assms by (simp add: in_bounds_iff)
  then have ilat: "cell_inv lat 0 BOUNDS_minLat BOUNDS_maxLat"
    and ilon: "cell_inv lon 0 BOUNDS_minLon BOUNDS_maxLon"
    by (simp_all add: in_bounds_def cell_inv_start)
  show ?thesis
    using indices_in_grid [OF _ ilat ilon] encode_in_bounds_code [OF ib]
    by (auto simp: DIGIPIN_LENGTH_def)
qed

theorem encode_never_fails_witness:
  "(2.5::real) \<le> 38.5 \<and> (63.5::real) \<le> 99.5 \<and>
   list_all index_ok (getDigiPin_indices 38.5 63.5 0
                   BOUNDS_minLat BOUNDS_maxLat BOUNDS_minLon BOUNDS_maxLon) \<and>
   list_all index_ok (getDigiPin_ts_indices 38.5 63.5 0
                   BOUNDS_minLat BOUNDS_maxLat BOUNDS_minLon BOUNDS_maxLon) \<and>
   (\<exists>code. getDigiPin 38.5 63.5 = Inr code \<and> getDigiPin_ts 38.5 63.5 = Inr code \<and>
      well_formed_code code)"
  using encode_never_fails [of "38.5" "63.5"] by simp

lemma roundtrip_results:
  assumes "in_bounds lat lon"
  shows "\<exists>code a b c d.
           getDigiPin lat lon = Inr code \<and> getDigiPin_ts lat lon = Inr code \<and>
           getLatLngFromDigiPin code =
             Inr \<lparr>latitude = JString (toFixed ((a + b) * 0.5) 6),
                  longitude = JString (toFixed ((c + d) * 0.5) 6)\<rparr> \<and>
           getLatLngFromDigiPin_ts code =
             Inr \<lparr>latitude = JNumber (round6 ((a + b) * 0.5)),
                  longitude = JNumber (round6 ((c + d) * 0.5))\<rparr> \<and>
           cell_inv lat DIGIPIN_LENGTH a b \<and> cell_inv lon DIGIPIN_LENGTH c d"
proof -
  define syms where "syms = cell_symbols lat lon DIGIPIN_LENGTH
                    BOUNDS_minLat BOUNDS_maxLat BOUNDS_minLon BOUNDS_maxLon"
  have ilat: "cell_inv lat 0 BOUNDS_minLat BOUNDS_maxLat"
    and ilon: "cell_inv lon 0 BOUNDS_minLon BOUNDS_maxLon"
    using assms by (simp_all add: in_bounds_def cell_inv_start)
  have props: "length syms = DIGIPIN_LENGTH" "list_all is_symbol syms"
    using cell_symbols_props [OF ilat ilon, of DIGIPIN_LENGTH] by (simp_all add: syms_def)
  have strip: "filter (\<lambda>c. c \<noteq> CHR ''-'') (hyphenate 0 syms) = syms"
    using props(2) by (rule filter_hyphenate)
  obtain a b c d where l: "getLatLngFromDigiPin_loop syms 0
        BOUNDS_minLat BOUNDS_maxLat BOUNDS_minLon BOUNDS_maxLon = Inr (a, b, c, d)"
    and inv: "cell_inv lat DIGIPIN_LENGTH a b" "cell_inv lon DIGIPIN_LENGTH c d"
    using roundtrip_rectangle [OF assms] unfolding syms_def by blast
  have "getLatLngFromDigiPin (hyphenate 0 syms) =
             Inr \<lparr>latitude = JString (toFixed ((a + b) * 0.5) 6),
                  longitude = JString (toFixed ((c + d) * 0.5) 6)\<rparr>"
    using props(1) l by (simp add: getLatLngFromDigiPin_def strip)
  moreover have "getLatLngFromDigiPin_ts (hyphenate 0 syms) =
             Inr \<lparr>latitude = JNumber (round6 ((a + b) * 0.5)),
                  longitude = JNumber (round6 ((c + d) * 0.5))\<rparr>"
    using props(1) l
    by (simp add: getLatLngFromDigiPin_ts_def strip_hyphens_ts_eq strip decode_loops_agree
        round6_def)
  ultimately show ?thesis
    using getDigiPin_in_bounds [OF assms] inv unfolding syms_def by blast
qed

lemma round6_as_string:
  "0 \<le> x \<Longrightarrow> decimal_value (toFixed x 6) = round6 x"
  by (simp add: toFixed_value round6_def Math_round_def)

lemma round6_near:
  assumes "\<bar>x - v\<bar> \<le> 9 / 524288"
  shows "\<bar>round6 x - v\<bar> < 1 / 10000"
proof -
  have "\<bar>round6 x - x\<bar> \<le> 1 / 2000000" unfolding round6_def by (rule round6_close)
  then show ?thesis using assms by linarith
qed

text \<open>
  C1: the round trip. For every point of the bounding box the encoder returns a code, and
  decoding that code returns a latitude and a longitude that each differ from the
  original by less than 0.0001 degrees. The typed copy returns the two numbers; the
  strings \<^verbatim>\<open>index.ts\<close> returns denote the same two numbers.
\<close>

theorem roundtrip_bound:
  assumes "2.5 \<le> lat" "lat \<le> 38.5" "63.5 \<le> lon" "lon \<le> 99.5"
  shows "\<exists>code la lo sla slo.
           getDigiPin lat lon = Inr code \<and> getDigiPin_ts lat lon = Inr code \<and>
           getLatLngFromDigiPin_ts code = Inr \<lparr>latitude = JNumber la, longitude = JNumber lo\<rparr> \<and>
           getLatLngFromDigiPin code = Inr \<lparr>latitude = JString sla, longitude = JString slo\<rparr> \<and>
           decimal_value sla = la \<and> decimal_value slo = lo \<and>
           \<bar>la - lat\<bar> < 1 / 10000 \<and> \<bar>lo - lon\<bar> < 1 / 10000"
proof -
  have ib: "in_bounds lat lon" using assms by (simp add: in_bounds_iff)
  obtain code a b c d where
    e: "getDigiPin lat lon = Inr code" "getDigiPin_ts lat lon = Inr code"
    and s: "getLatLngFromDigiPin code =
             Inr \<lparr>latitude = JString (toFixed ((a + b) * 0.5) 6),
                  longitude = JString (toFixed ((c + d) * 0.5) 6)\<rparr>"
    and t: "getLatLngFromDigiPin_ts code =
             Inr \<lparr>latitude = JNumber (round6 ((a + b) * 0.5)),
                  longitude = JNumber (round6 ((c + d) * 0.5))\<rparr>"
    and inv: "cell_inv lat DIGIPIN_LENGTH a b" "cell_inv lon DIGIPIN_LENGTH c d"
    using roundtrip_results [OF ib] by blast
  have "0 \<le> a" "0 \<le> c" "a \<le> b" "c \<le> d"
    using inv assms by (simp_all add: cell_inv_def DIGIPIN_LENGTH_def)
  then have pos: "0 \<le> (a + b) * 0.5" "0 \<le> (c + d) * 0.5" by simp_all
  have n1: "\<bar>round6 ((a + b) * 0.5) - lat\<bar> < 1 / 10000"
    using centre_close [OF inv(1)] by (rule round6_near)
  have n2: "\<bar>round6 ((c + d) * 0.5) - lon\<bar> < 1 / 10000"
    using centre_close [OF inv(2)] by (rule round6_near)
  show ?thesis
    using e s t round6_as_string [OF pos(1)] round6_as_string [OF pos(2)] n1 n2 by blast
qed

theorem roundtrip_bound_witness:
  "(2.5::real) \<le> 18.968557 \<and> (18.968557::real) \<le> 38.5 \<and>
   (63.5::real) \<le> 72.822191 \<and> (72.822191::real) \<le> 99.5 \<and>
   (\<exists>code la lo sla slo.
      getDigiPin 18.968557 72.822191 = Inr code \<and> getDigiPin_ts 18.968557 72.822191 = Inr code \<and>
      getLatLngFromDigiPin_ts code = Inr \<lparr>latitude = JNumber la, longitude = JNumber lo\<rparr> \<and>
      getLatLngFromDigiPin code = Inr \<lparr>latitude = JString sla, longitude = JString slo\<rparr> \<and>
      decimal_value sla = la \<and> decimal_value slo = lo \<and>
      \<bar>la - 18.968557\<bar> < 1 / 10000 \<and> \<bar>lo - 72.822191\<bar> < 1 / 10000)"
  using roundtrip_bound [of "18.968557" "72.822191"] by simp

section \<open>The decoded centre\<close>

lemma round6_in_box:
  assumes "BOUNDS_minLat \<le> a" "a < b" "b \<le> BOUNDS_maxLat"
    and "BOUNDS_minLon \<le> c" "c < d" "d \<le> BOUNDS_maxLon"
  shows "in_bounds (round6 ((a + b) * 0.5)) (round6 ((c + d) * 0.5))"
proof -
  have la: "real_of_int 2500000 / 1000000 \<le> (a + b) * 0.5"
    "(a + b) * 0.5 \<le> real_of_int 38500000 / 1000000"
    using assms(1-3) by (simp_all add: BOUNDS_minLat_def BOUNDS_maxLat_def)
  have lo: "real_of_int 63500000 / 1000000 \<le> (c + d) * 0.5"
    "(c + d) * 0.5 \<le> real_of_int 99500000 / 1000000"
    using assms(4-6) by (simp_all add: BOUNDS_minLon_def BOUNDS_maxLon_def)
  show ?thesis
    using round6_mono_bounds [OF la] round6_mono_bounds [OF lo]
    by (simp add: in_bounds_iff round6_def)
qed

text \<open>
  C10: for every valid code the decoder's rectangle stays nested. From any iteration
  \<open>i\<close> and any non-empty rectangle, the rectangle the loop returns lies inside the one
  it started from; so, started from the bounding box, the final rectangle and its centre
  lie inside the bounding box, the returned (rounded) latitude and longitude lie in
  \<open>[2.5, 38.5]\<close> and \<open>[63.5, 99.5]\<close>, and encoding them again does not fail.
\<close>

theorem decode_centre_in_bounds:
  assumes "valid_code digiPin"
  shows "(\<forall>i minLat maxLat minLon maxLon a b c d.
            i \<le> 10 \<and> minLat < maxLat \<and> minLon < maxLon \<and>
            getLatLngFromDigiPin_loop (filter (\<lambda>c. c \<noteq> CHR ''-'') digiPin) i
              minLat maxLat minLon maxLon = Inr (a, b, c, d) \<longrightarrow>
            minLat \<le> a \<and> a < b \<and> b \<le> maxLat \<and> minLon \<le> c \<and> c < d \<and> d \<le> maxLon) \<and>
         (\<exists>a b c d la lo sla slo.
            getLatLngFromDigiPin_loop (filter (\<lambda>c. c \<noteq> CHR ''-'') digiPin) 0
              BOUNDS_minLat BOUNDS_maxLat BOUNDS_minLon BOUNDS_maxLon = Inr (a, b, c, d) \<and>
            2.5 \<le> a \<and> a < b \<and> b \<le> 38.5 \<and> 63.5 \<le> c \<and> c < d \<and> d \<le> 99.5 \<and>
            2.5 < (a + b) * 0.5 \<and> (a + b) * 0.5 < 38.5 \<and>
            63.5 < (c + d) * 0.5 \<and> (c + d) * 0.5 < 99.5 \<and>
            getLatLngFromDigiPin_ts digiPin =
              Inr \<lparr>latitude = JNumber la, longitude = JNumber lo\<rparr> \<and>
            getLatLngFromDigiPin digiPin =
              Inr \<lparr>latitude = JString sla, longitude = JString slo\<rparr> \<and>
            decimal_value sla = la \<and> decimal_value slo = lo \<and>
            2.5 \<le> la \<and> la \<le> 38.5 \<and> 63.5 \<le> lo \<and> lo \<le> 99.5 \<and>
            (\<exists>code. getDigiPin la lo = Inr code \<and> getDigiPin_ts la lo = Inr code))"
proof (rule conjI, intro allI impI)
  fix i minLat maxLat minLon maxLon a b c d
  assume h: "i \<le> 10 \<and> minLat < maxLat \<and> minLon < maxLon \<and>
            getLatLngFromDigiPin_loop (filter (\<lambda>c. c \<noteq> CHR ''-'') digiPin) i
              minLat maxLat minLon maxLon = Inr (a, b, c, d)"
  have len: "length (filter (\<lambda>c. c \<noteq> CHR ''-'') digiPin) = DIGIPIN_LENGTH"
    using assms by (simp add: valid_code_def DIGIPIN_LENGTH_def)
  from h have "i \<le> DIGIPIN_LENGTH" "minLat < maxLat" "minLon < maxLon"
    "getLatLngFromDigiPin_loop (filter (\<lambda>c. c \<noteq> CHR ''-'') digiPin) i
              minLat maxLat minLon maxLon = Inr (a, b, c, d)"
    by (simp_all add: DIGIPIN_LENGTH_def)
  then show "minLat \<le> a \<and> a < b \<and> b \<le> maxLat \<and> minLon \<le> c \<and> c < d \<and> d \<le> maxLon"
    by (rule decode_loop_nested [OF len])
next
  obtain a b c d where
    l: "getLatLngFromDigiPin_loop (filter (\<lambda>c. c \<noteq> CHR ''-'') digiPin) 0
             BOUNDS_minLat BOUNDS_maxLat BOUNDS_minLon BOUNDS_maxLon = Inr (a, b, c, d)"
    and s: "getLatLngFromDigiPin digiPin =
             Inr \<lparr>latitude = JString (toFixed ((a + b) * 0.5) 6),
                  longitude = JString (toFixed ((c + d) * 0.5) 6)\<rparr>"
    and t: "getLatLngFromDigiPin_ts digiPin =
             Inr \<lparr>latitude = JNumber (round6 ((a + b) * 0.5)),
                  longitude = JNumber (round6 ((c + d) * 0.5))\<rparr>"
    and nest: "BOUNDS_minLat \<le> a" "a < b" "b \<le> BOUNDS_maxLat"
      "BOUNDS_minLon \<le> c" "c < d" "d \<le> BOUNDS_maxLon"
    using decode_valid_results [OF assms] by blast
  have box: "2.5 \<le> a" "b \<le> 38.5" "63.5 \<le> c" "d \<le> 99.5"
    using nest by (simp_all add: BOUNDS_minLat_def BOUNDS_maxLat_def BOUNDS_minLon_def
        BOUNDS_maxLon_def)
  have ctr: "2.5 < (a + b) * 0.5" "(a + b) * 0.5 < 38.5"
    "63.5 < (c + d) * 0.5" "(c + d) * 0.5 < 99.5"
    using box nest(2,5) by simp_all
  have pos: "0 \<le> (a + b) * 0.5" "0 \<le> (c + d) * 0.5" using ctr by simp_all
  have ib: "in_bounds (round6 ((a + b) * 0.5)) (round6 ((c + d) * 0.5))"
    using nest by (rule round6_in_box)
  then have rb: "2.5 \<le> round6 ((a + b) * 0.5)" "round6 ((a + b) * 0.5) \<le> 38.5"
    "63.5 \<le> round6 ((c + d) * 0.5)" "round6 ((c + d) * 0.5) \<le> 99.5"
    by (simp_all add: in_bounds_iff)
  have re: "\<exists>code. getDigiPin (round6 ((a + b) * 0.5)) (round6 ((c + d) * 0.5)) = Inr code \<and>
              getDigiPin_ts (round6 ((a + b) * 0.5)) (round6 ((c + d) * 0.5)) = Inr code"
    using encode_in_bounds_code [OF ib] by blast
  show "\<exists>a b c d la lo sla slo.
            getLatLngFromDigiPin_loop (filter (\<lambda>c. c \<noteq> CHR ''-'') digiPin) 0
              BOUNDS_minLat BOUNDS_maxLat BOUNDS_minLon BOUNDS_maxLon = Inr (a, b, c, d) \<and>
            2.5 \<le> a \<and> a < b \<and> b \<le> 38.5 \<and> 63.5 \<le> c \<and> c < d \<and> d \<le> 99.5 \<and>
            2.5 < (a + b) * 0.5 \<and> (a + b) * 0.5 < 38.5 \<and>
            63.5 < (c + d) * 0.5 \<and> (c + d) * 0.5 < 99.5 \<and>
            getLatLngFromDigiPin_ts digiPin =
              Inr \<lparr>latitude = JNumber la, longitude = JNumber lo\<rparr> \<and>
            getLatLngFromDigiPin digiPin =
              Inr \<lparr>latitude = JString sla, longitude = JString slo\<rparr> \<and>
            decimal_value sla = la \<and> decimal_value slo = lo \<and>
            2.5 \<le> la \<and> la \<le> 38.5 \<and> 63.5 \<le> lo \<and> lo \<le> 99.5 \<and>
            (\<exists>code. getDigiPin la lo = Inr code \<and> getDigiPin_ts la lo = Inr code)"
    using l box nest(2,5) ctr t s round6_as_string [OF pos(1)] round6_as_string [OF pos(2)] rb re
    by blast
qed

theorem decode_centre_in_bounds_witness:
  "valid_code ''4FK-5MK-9PPK'' \<and>
   getLatLngFromDigiPin_loop ''4FK5MK9PPK'' 0 BOUNDS_minLat BOUNDS_maxLat BOUNDS_minLon BOUNDS_maxLon
     = Inr (4972489 / 262144, 2486249 / 131072, 2386237 / 32768, 19089905 / 262144) \<and>
   (BOUNDS_minLat \<le> 4972489 / 262144 \<and> (4972489 / 262144 :: real) < 2486249 / 131072 \<and>
    2486249 / 131072 \<le> BOUNDS_maxLat \<and> BOUNDS_minLon \<le> 2386237 / 32768 \<and>
    (2386237 / 32768 :: real) < 19089905 / 262144 \<and> 19089905 / 262144 \<le> BOUNDS_maxLon) \<and>
   (\<exists>la lo. getLatLngFromDigiPin_ts ''4FK-5MK-9PPK'' =
              Inr \<lparr>latitude = JNumber la, longitude = JNumber lo\<rparr> \<and>
            2.5 \<le> la \<and> la \<le> 38.5 \<and> 63.5 \<le> lo \<and> lo \<le> 99.5 \<and>
            (\<exists>code. getDigiPin la lo = Inr code \<and> getDigiPin_ts la lo = Inr code))"
proof -
  have v: "valid_code ''4FK-5MK-9PPK''"
    by (simp add: valid_code_def is_symbol_def CHAR_TO_POSITION_unfold)
  have f: "filter (\<lambda>c. c \<noteq> CHR ''-'') ''4FK-5MK-9PPK'' = ''4FK5MK9PPK''" by simp
  note th = decode_centre_in_bounds [OF v, unfolded f]
  have nest: "BOUNDS_minLat \<le> 4972489 / 262144 \<and> (4972489 / 262144 :: real) < 2486249 / 131072 \<and>
    2486249 / 131072 \<le> BOUNDS_maxLat \<and> BOUNDS_minLon \<le> 2386237 / 32768 \<and>
    (2386237 / 32768 :: real) < 19089905 / 262144 \<and> 19089905 / 262144 \<le> BOUNDS_maxLon"
    by (rule th [THEN conjunct1, rule_format, of 0]) (simp add: decode_loop_example box_nonempty)
  show ?thesis
    using v decode_loop_example nest th [THEN conjunct2] by blast
qed

lemma decode_ts_returns_numbers:
  assumes "valid_code digiPin"
  shows "\<exists>a b c d.
           getLatLngFromDigiPin_loop (filter (\<lambda>c. c \<noteq> CHR ''-'') digiPin) 0
             BOUNDS_minLat BOUNDS_maxLat BOUNDS_minLon BOUNDS_maxLon = Inr (a, b, c, d) \<and>
           getLatLngFromDigiPin_ts digiPin =
             Inr \<lparr>latitude = JNumber (round6 ((a + b) * 0.5)),
                  longitude = JNumber (round6 ((c + d) * 0.5))\<rparr> \<and>
           \<bar>round6 ((a + b) * 0.5) - (a + b) * 0.5\<bar> \<le> 1 / 2000000 \<and>
           \<bar>round6 ((c + d) * 0.5) - (c + d) * 0.5\<bar> \<le> 1 / 2000000"
proof -
  have cl: "\<bar>round6 x - x\<bar> \<le> 1 / 2000000" for x
    unfolding round6_def by (rule round6_close)
  show ?thesis
    using decode_valid_results [OF assms] cl by blast
qed

lemma decode_ts_plain_example:
  "getLatLngFromDigiPin_ts ''4FK5MK9PPK'' =
     Inr \<lparr>latitude = JNumber 18.968557, longitude = JNumber 72.822191\<rparr>"
  by (simp add: getLatLngFromDigiPin_ts_def strip_hyphens_ts_eq decode_ts_loop_example
      Math_round_def DIGIPIN_LENGTH_def)

text \<open>
  C2: the decoder is to return the latitude and the longitude as numbers rounded to six
  decimals, not as display strings. The typed copy does. The decoder of \<^verbatim>\<open>index.ts\<close>
  does not: for the code \<open>4FK-5MK-9PPK\<close>, written with or without its hyphens, it
  returns the \<^verbatim>\<open>toFixed(6)\<close> strings \<open>18.968557\<close> and \<open>72.822191\<close>, which are no
  numbers, where the typed copy returns the numbers 18.968557 and 72.822191.
\<close>

theorem decode_index_returns_strings:
  "getLatLngFromDigiPin ''4FK-5MK-9PPK'' =
     Inr \<lparr>latitude = JString ''18.968557'', longitude = JString ''72.822191''\<rparr> \<and>
   getLatLngFromDigiPin ''4FK5MK9PPK'' =
     Inr \<lparr>latitude = JString ''18.968557'', longitude = JString ''72.822191''\<rparr> \<and>
   \<not> is_number (JString ''18.968557'') \<and> \<not> is_number (JString ''72.822191'') \<and>
   getLatLngFromDigiPin_ts ''4FK-5MK-9PPK'' =
     Inr \<lparr>latitude = JNumber 18.968557, longitude = JNumber 72.822191\<rparr> \<and>
   getLatLngFromDigiPin_ts ''4FK5MK9PPK'' =
     Inr \<lparr>latitude = JNumber 18.968557, longitude = JNumber 72.822191\<rparr> \<and>
   is_number (JNumber 18.968557) \<and> is_number (JNumber 72.822191)"
  using decode_example decode_plain_example decode_ts_example decode_ts_plain_example
  by simp

end
